theory Spec2Isabelle
  imports Complex_Main "HOL-Library.Log_Nat" "HOL-Library.Word"
begin

section \<open>JavaScript values used by the handlers\<close>

subsection \<open>Numbers\<close>

text \<open>
  A JavaScript \<^verbatim>\<open>number\<close> is an IEEE binary64 value. The finite ones are kept as the
  exact rational they denote; the two zeros are one value \<open>Fin 0\<close> (no operation of
  the handlers tells them apart: both are falsy, equal under \<^verbatim>\<open>===\<close>, and sort alike).
\<close>

datatype jsnum = NaN | NInf | Fin rat | PInf

text \<open>Truthiness of a number: everything but \<^verbatim>\<open>0\<close> and \<^verbatim>\<open>NaN\<close>.\<close>

fun js_truthy :: "jsnum \<Rightarrow> bool" where
  "js_truthy NaN = False"
| "js_truthy (Fin r) = (r \<noteq> 0)"
| "js_truthy NInf = True"
| "js_truthy PInf = True"

text \<open>\<^verbatim>\<open>a === b\<close> on numbers: \<^verbatim>\<open>NaN\<close> equals nothing, itself included.\<close>

definition js_strict_eq :: "jsnum \<Rightarrow> jsnum \<Rightarrow> bool" where
  "js_strict_eq a b = (a \<noteq> NaN \<and> a = b)"

text \<open>\<^verbatim>\<open>a < b\<close> and \<^verbatim>\<open>a <= b\<close> on numbers; both are false when an operand is \<^verbatim>\<open>NaN\<close>.\<close>

fun js_lt :: "jsnum \<Rightarrow> jsnum \<Rightarrow> bool" where
  "js_lt NaN b = False"
| "js_lt a NaN = False"
| "js_lt a NInf = False"
| "js_lt NInf b = True"
| "js_lt PInf b = False"
| "js_lt (Fin r) PInf = True"
| "js_lt (Fin r) (Fin s) = (r < s)"

definition js_le :: "jsnum \<Rightarrow> jsnum \<Rightarrow> bool" where
  "js_le a b = (js_lt a b \<or> js_strict_eq a b)"

text \<open>
  Rounding of an exact rational to binary64: round to nearest, ties to even, with
  gradual underflow and overflow to an infinity. The magnitude \<open>a\<close> is scaled by the
  weight \<open>2^q\<close> of its last place, which is 52 binary places below its leading bit and
  never below \<open>-1074\<close>, and rounded to an integer significand; the result overflows when
  the rounded magnitude reaches \<open>2^1024\<close>, that is when its binary exponent is at least
  \<open>1024\<close>.
\<close>

definition pow2 :: "int \<Rightarrow> rat" where
  "pow2 k = (if 0 \<le> k then 2 ^ nat k else 1 / 2 ^ nat (- k))"

definition ilog2 :: "rat \<Rightarrow> int" where
  \<comment> \<open>\<open>\<lfloor>log\<^sub>2 a\<rfloor>\<close> for \<open>a > 0\<close>: the bit length of \<open>\<lfloor>a\<rfloor>\<close> less one when \<open>a \<ge> 1\<close>,
      and below \<open>1\<close> the least \<open>k\<close> with \<open>1 / a \<le> 2^k\<close>, negated\<close>
  "ilog2 a = (if 1 \<le> a then bitlen \<lfloor>a\<rfloor> - 1 else - bitlen (\<lceil>1 / a\<rceil> - 1))"

definition round_half_even :: "rat \<Rightarrow> int" where
  "round_half_even x =
     (let f = \<lfloor>x\<rfloor>; r = x - of_int f
      in if r < 1 / 2 then f
         else if 1 / 2 < r then f + 1
         else if even f then f else f + 1)"

definition round_double :: "rat \<Rightarrow> jsnum" where
  "round_double x =
     (if x = 0 then Fin 0
      else
        let a = \<bar>x\<bar>;
            q = max (ilog2 a - 52) (- 1074);
            v = of_int (round_half_even (a / pow2 q)) * pow2 q
        in if 1 \<le> v \<and> 1024 \<le> ilog2 v then (if 0 < x then PInf else NInf)
           else Fin (if 0 < x then v else - v))"

text \<open>Unary minus.\<close>

fun js_neg :: "jsnum \<Rightarrow> jsnum" where
  "js_neg NaN = NaN"
| "js_neg NInf = PInf"
| "js_neg PInf = NInf"
| "js_neg (Fin r) = Fin (- r)"

text \<open>
  \<^verbatim>\<open>a - b\<close>. The handlers subtract only inside sort comparators, and a sort reads
  nothing but the sign of the comparator's result. The binary64 difference of two
  binary64 values has the sign of their exact difference and is zero only when they are
  equal, so the finite case keeps the exact difference.
\<close>

fun js_sub :: "jsnum \<Rightarrow> jsnum \<Rightarrow> jsnum" where
  "js_sub NaN b = NaN"
| "js_sub a NaN = NaN"
| "js_sub PInf PInf = NaN"
| "js_sub NInf NInf = NaN"
| "js_sub PInf b = PInf"
| "js_sub NInf b = NInf"
| "js_sub (Fin r) PInf = NInf"
| "js_sub (Fin r) NInf = PInf"
| "js_sub (Fin r) (Fin s) = Fin (r - s)"

text \<open>
  \<^verbatim>\<open>a / b\<close> and \<^verbatim>\<open>a * b\<close>, rounded. A zero divisor is read as \<^verbatim>\<open>+0\<close>; the one
  division of the program is guarded by the truthiness of its divisor.
\<close>

fun js_div :: "jsnum \<Rightarrow> jsnum \<Rightarrow> jsnum" where
  "js_div NaN b = NaN"
| "js_div a NaN = NaN"
| "js_div (Fin r) (Fin s) =
     (if s = 0 then (if r = 0 then NaN else if 0 < r then PInf else NInf)
      else round_double (r / s))"
| "js_div (Fin r) b = Fin 0"
| "js_div a (Fin s) = (if (a = PInf) = (0 \<le> s) then PInf else NInf)"
| "js_div a b = NaN"

fun js_mul :: "jsnum \<Rightarrow> jsnum \<Rightarrow> jsnum" where
  "js_mul NaN b = NaN"
| "js_mul a NaN = NaN"
| "js_mul (Fin r) (Fin s) = round_double (r * s)"
| "js_mul (Fin r) b = (if r = 0 then NaN else if (b = PInf) = (0 < r) then PInf else NInf)"
| "js_mul a (Fin s) = (if s = 0 then NaN else if (a = PInf) = (0 < s) then PInf else NInf)"
| "js_mul a b = (if a = b then PInf else NInf)"

text \<open>\<^verbatim>\<open>Math.round\<close>: the integer nearest to the argument, halves going up.\<close>

fun Math_round :: "jsnum \<Rightarrow> jsnum" where
  "Math_round (Fin r) = Fin (of_int \<lfloor>r + 1 / 2\<rfloor>)"
| "Math_round a = a"

text \<open>\<^verbatim>\<open>Math.min\<close> of two numbers: \<^verbatim>\<open>NaN\<close> if either is.\<close>

definition Math_min :: "jsnum \<Rightarrow> jsnum \<Rightarrow> jsnum" where
  "Math_min a b = (if a = NaN \<or> b = NaN then NaN else if js_lt b a then b else a)"

subsection \<open>Strings\<close>

text \<open>
  A string is a list of code units; a \<^typ>\<open>char\<close> stands for the code unit of the same
  value, so the strings of the model are those whose code units are below 256.
\<close>

definition isLineTerminator :: "char \<Rightarrow> bool" where
  "isLineTerminator c = (c = CHR 0x0A \<or> c = CHR 0x0D)"

definition isStrWhiteSpaceChar :: "char \<Rightarrow> bool" where
  "isStrWhiteSpaceChar c =
     (c = CHR 0x09 \<or> c = CHR 0x0B \<or> c = CHR 0x0C \<or> c = CHR 0x20 \<or> c = CHR 0xA0
      \<or> isLineTerminator c)"

text \<open>The value of a digit in a base up to 16; \<open>None\<close> when the character is no such digit.\<close>

definition digitTable :: "(char \<times> int) list" where
  "digitTable =
     [(CHR ''0'', 0), (CHR ''1'', 1), (CHR ''2'', 2), (CHR ''3'', 3), (CHR ''4'', 4),
      (CHR ''5'', 5), (CHR ''6'', 6), (CHR ''7'', 7), (CHR ''8'', 8), (CHR ''9'', 9),
      (CHR ''a'', 10), (CHR ''b'', 11), (CHR ''c'', 12), (CHR ''d'', 13), (CHR ''e'', 14),
      (CHR ''f'', 15), (CHR ''A'', 10), (CHR ''B'', 11), (CHR ''C'', 12), (CHR ''D'', 13),
      (CHR ''E'', 14), (CHR ''F'', 15)]"

definition digitValue :: "int \<Rightarrow> char \<Rightarrow> int option" where
  "digitValue base c =
     (case map_of digitTable c of
        None \<Rightarrow> None
      | Some v \<Rightarrow> if v < base then Some v else None)"

definition isDecimalDigit :: "char \<Rightarrow> bool" where
  "isDecimalDigit c = (digitValue 10 c \<noteq> None)"

fun digitsValue :: "int \<Rightarrow> int \<Rightarrow> string \<Rightarrow> int option" where
  "digitsValue base acc [] = Some acc"
| "digitsValue base acc (c # cs) =
     (case digitValue base c of
        None \<Rightarrow> None
      | Some v \<Rightarrow> digitsValue base (acc * base + v) cs)"

text \<open>One or more digits of the base, and nothing else.\<close>

definition digitString :: "int \<Rightarrow> string \<Rightarrow> int option" where
  "digitString base s = (if s = [] then None else digitsValue base 0 s)"

text \<open>\<^verbatim>\<open>0x\<close>, \<^verbatim>\<open>0o\<close> and \<^verbatim>\<open>0b\<close> literals (either case of the letter), unsigned.\<close>

fun nonDecimalIntegerLiteral :: "string \<Rightarrow> int option" where
  "nonDecimalIntegerLiteral (z # p # ds) =
     (if z \<noteq> CHR ''0'' then None
      else if p = CHR ''x'' \<or> p = CHR ''X'' then digitString 16 ds
      else if p = CHR ''o'' \<or> p = CHR ''O'' then digitString 8 ds
      else if p = CHR ''b'' \<or> p = CHR ''B'' then digitString 2 ds
      else None)"
| "nonDecimalIntegerLiteral s = None"

text \<open>The exponent part after its \<^verbatim>\<open>e\<close> or \<^verbatim>\<open>E\<close>: an optionally signed digit string.\<close>

fun signedInteger :: "string \<Rightarrow> int option" where
  "signedInteger [] = None"
| "signedInteger (c # cs) =
     (if c = CHR ''+'' then digitString 10 cs
      else if c = CHR ''-'' then map_option uminus (digitString 10 cs)
      else digitString 10 (c # cs))"

fun exponentPart :: "string \<Rightarrow> int option" where
  "exponentPart [] = Some 0"
| "exponentPart (c # cs) = (if c = CHR ''e'' \<or> c = CHR ''E'' then signedInteger cs else None)"

definition pow10 :: "int \<Rightarrow> rat" where
  "pow10 k = (if 0 \<le> k then 10 ^ nat k else 1 / 10 ^ nat (- k))"

text \<open>
  \<^verbatim>\<open>StrUnsignedDecimalLiteral\<close>: \<^verbatim>\<open>Infinity\<close>, or digits with an optional fraction and
  exponent, at least one digit before or after the point.
\<close>

definition strUnsignedDecimalLiteral :: "string \<Rightarrow> jsnum" where
  "strUnsignedDecimalLiteral s =
     (if s = ''Infinity'' then PInf
      else
        let ip = takeWhile isDecimalDigit s;
            r1 = dropWhile isDecimalDigit s;
            hasPoint = (r1 \<noteq> [] \<and> hd r1 = CHR ''.'');
            r2 = (if hasPoint then tl r1 else r1);
            fp = (if hasPoint then takeWhile isDecimalDigit r2 else []);
            r3 = (if hasPoint then dropWhile isDecimalDigit r2 else r2)
        in if ip = [] \<and> fp = [] then NaN
           else case (digitsValue 10 0 (ip @ fp), exponentPart r3) of
                  (Some m, Some e) \<Rightarrow> round_double (of_int m * pow10 (e - int (length fp)))
                | _ \<Rightarrow> NaN)"

definition trimWhiteSpace :: "string \<Rightarrow> string" where
  "trimWhiteSpace s = rev (dropWhile isStrWhiteSpaceChar (rev (dropWhile isStrWhiteSpaceChar s)))"

text \<open>
  \<^verbatim>\<open>Number(s)\<close> for a string \<open>s\<close>: white space is trimmed, the empty string is \<open>0\<close>, and
  a string that is no numeric literal is \<^verbatim>\<open>NaN\<close>.
\<close>

definition js_Number :: "string \<Rightarrow> jsnum" where
  "js_Number s =
     (let t = trimWhiteSpace s
      in if t = [] then Fin 0
         else case nonDecimalIntegerLiteral t of
                Some n \<Rightarrow> round_double (of_int n)
              | None \<Rightarrow>
                  (if hd t = CHR ''+'' then strUnsignedDecimalLiteral (tl t)
                   else if hd t = CHR ''-'' then js_neg (strUnsignedDecimalLiteral (tl t))
                   else strUnsignedDecimalLiteral t))"

text \<open>\<^verbatim>\<open>s.includes(sub)\<close>: \<open>sub\<close> occurs in \<open>s\<close> as a contiguous run.\<close>

fun js_startsWith :: "string \<Rightarrow> string \<Rightarrow> bool" where
  "js_startsWith s [] = True"
| "js_startsWith [] (c # cs) = False"
| "js_startsWith (d # ds) (c # cs) = (d = c \<and> js_startsWith ds cs)"

fun js_includes :: "string \<Rightarrow> string \<Rightarrow> bool" where
  "js_includes [] sub = (sub = [])"
| "js_includes (c # cs) sub = (js_startsWith (c # cs) sub \<or> js_includes cs sub)"

text \<open>
  \<^verbatim>\<open>s.split(';')\<close>: the pieces between the semicolons, at least one piece.
\<close>

fun js_split_semicolon :: "string \<Rightarrow> string list" where
  "js_split_semicolon [] = [[]]"
| "js_split_semicolon (c # cs) =
     (case js_split_semicolon cs of
        [] \<Rightarrow> [[c]]
      | p # ps \<Rightarrow> if c = CHR '';'' then [] # p # ps else (c # p) # ps)"

text \<open>
  \<^verbatim>\<open>s.replace(/p.*/, '')\<close>: the first \<^verbatim>\<open>p\<close> and everything after it up to the next line
  terminator is removed.
\<close>

fun replace_p_rest :: "string \<Rightarrow> string" where
  "replace_p_rest [] = []"
| "replace_p_rest (c # cs) =
     (if c = CHR ''p'' then dropWhile (\<lambda>d. \<not> isLineTerminator d) cs
      else c # replace_p_rest cs)"

subsection \<open>Arrays\<close>

text \<open>
  \<^verbatim>\<open>xs.sort(cmp)\<close>: a stable sort; an element moves behind another one only when the
  comparator gives a positive number for the pair (\<^verbatim>\<open>NaN\<close> counts as \<open>0\<close>). This is the
  order the language defines for a consistent comparator. For a comparator that is not
  consistent, as one that returns \<^verbatim>\<open>NaN\<close> for some pairs only, the language leaves the
  order to the engine, so the theorems on sorted lists below ask for keys that are
  numbers.
\<close>

definition js_positive :: "jsnum \<Rightarrow> bool" where
  "js_positive c = js_lt (Fin 0) c"

fun js_insert :: "('a \<Rightarrow> 'a \<Rightarrow> jsnum) \<Rightarrow> 'a \<Rightarrow> 'a list \<Rightarrow> 'a list" where
  "js_insert cmp x [] = [x]"
| "js_insert cmp x (y # ys) =
     (if js_positive (cmp x y) then y # js_insert cmp x ys else x # y # ys)"

fun js_sort :: "('a \<Rightarrow> 'a \<Rightarrow> jsnum) \<Rightarrow> 'a list \<Rightarrow> 'a list" where
  "js_sort cmp [] = []"
| "js_sort cmp (x # xs) = js_insert cmp x (js_sort cmp xs)"

text \<open>\<^verbatim>\<open>xs[0]\<close>: \<^verbatim>\<open>undefined\<close> on the empty array.\<close>

fun first_element :: "'a list \<Rightarrow> 'a option" where
  "first_element [] = None"
| "first_element (x # xs) = Some x"

text \<open>\<^verbatim>\<open>a ?? b\<close> where both sides may be \<^verbatim>\<open>undefined\<close>.\<close>

fun nullish_or :: "'a option \<Rightarrow> 'a option \<Rightarrow> 'a option" where
  "nullish_or (Some a) b = Some a"
| "nullish_or None b = b"

section \<open>The Resolver (ytdl-core)\<close>

text \<open>
  The fields of a format descriptor that the handlers read. \<^verbatim>\<open>mimeType\<close>,
  \<^verbatim>\<open>qualityLabel\<close>, the bit rates, the sample rate and \<^verbatim>\<open>contentLength\<close> may be
  missing, and the handlers guard each of them.
\<close>

record format =
  itag :: jsnum
  url :: string
  mimeType :: "string option"
  container :: string
  qualityLabel :: "string option"
  bitrate :: "jsnum option"
  audioBitrate :: "jsnum option"
  audioSampleRate :: "string option"
  contentLength :: "string option"
  hasVideo :: bool
  hasAudio :: bool

record thumbnail =
  thumbnail_url :: string

record videoDetails =
  title :: string
  author_name :: string
  thumbnails :: "thumbnail list"
  lengthSeconds :: string

record videoInfo =
  formats :: "format list"
  videoDetails :: videoDetails

text \<open>
  The two operations the handlers call before any byte is streamed. \<^verbatim>\<open>getInfo\<close> returns
  \<open>None\<close> when its promise is rejected.
\<close>

record resolver =
  validateURL :: "string \<Rightarrow> bool"
  getInfo :: "string \<Rightarrow> videoInfo option"

datatype stream_filter = audioonly | videoandaudio

text \<open>The calls a handler makes to the Resolver, in order.\<close>

datatype resolver_call = GetInfo string | OpenStream string jsnum stream_filter

text \<open>
  Modelled from the spec: \<^verbatim>\<open>ytdl.filterFormats\<close> belongs to the library and is not part
  of the sources. With \<^verbatim>\<open>'videoandaudio'\<close> it keeps the formats that have both tracks,
  with \<^verbatim>\<open>'audioonly'\<close> those that have an audio track and no video track, in the order
  of the list; the library also drops a format that has no stream URL.
\<close>

definition filterFormats :: "format list \<Rightarrow> stream_filter \<Rightarrow> format list" where
  "filterFormats fs flt =
     filter (\<lambda>f. url f \<noteq> [] \<and>
                 (case flt of
                    videoandaudio \<Rightarrow> hasVideo f \<and> hasAudio f
                  | audioonly \<Rightarrow> \<not> hasVideo f \<and> hasAudio f)) fs"

section \<open>Responses\<close>

datatype 'a body = ErrorJson string | Json 'a | WebStream string jsnum stream_filter

record 'a response =
  status :: nat
  headers :: "(string \<times> string) list"
  body :: "'a body"

definition jsonError :: "nat \<Rightarrow> string \<Rightarrow> 'a response" where
  "jsonError code msg = \<lparr>status = code, headers = [], body = ErrorJson msg\<rparr>"

text \<open>
  The headers of a response are built by the constructor of the response, \<^verbatim>\<open>new NextResponse\<close>,
  which is library code and is modelled from the Fetch standard: it trims the HTTP white
  space (tab, line feed, carriage return, space) around each value and throws when a
  trimmed value still holds a NUL, a line feed or a carriage return. It throws too on a
  code unit above 255, which the strings of the model, lists of 8-bit characters, do not
  have; the header names the handler writes are fixed and legal, and are kept here as the
  handler writes them.
\<close>

definition isHttpWhitespace :: "char \<Rightarrow> bool" where
  "isHttpWhitespace c = (c = CHR 0x09 \<or> c = CHR 0x0A \<or> c = CHR 0x0D \<or> c = CHR 0x20)"

definition headerValueNormalize :: "string \<Rightarrow> string" where
  "headerValueNormalize v = rev (dropWhile isHttpWhitespace (rev (dropWhile isHttpWhitespace v)))"

definition isValidHeaderValue :: "string \<Rightarrow> bool" where
  "isValidHeaderValue v = (CHR 0x00 \<notin> set v \<and> CHR 0x0A \<notin> set v \<and> CHR 0x0D \<notin> set v)"

definition headerValuesAccepted :: "(string \<times> string) list \<Rightarrow> bool" where
  "headerValuesAccepted init = list_all (\<lambda>(n, v). isValidHeaderValue (headerValueNormalize v)) init"

text \<open>\<open>None\<close> when the constructor throws.\<close>

definition newHeaders :: "(string \<times> string) list \<Rightarrow> (string \<times> string) list option" where
  "newHeaders init =
     (if headerValuesAccepted init
      then Some (map (\<lambda>(n, v). (n, headerValueNormalize v)) init)
      else None)"

section \<open>The download endpoint\<close>

definition inferExtension :: "string option \<Rightarrow> string" where
  "inferExtension m =
     (case m of
        None \<Rightarrow> ''bin''
      | Some mt \<Rightarrow>
          if mt = [] then ''bin''
          else if js_includes mt ''mp4'' then ''mp4''
          else if js_includes mt ''webm'' then ''webm''
          else if js_includes mt ''mpeg'' then ''mp3''
          else if js_includes mt ''ogg'' then ''ogg''
          else ''bin'')"

text \<open>\<^verbatim>\<open>itagParam ? Number(itagParam) : undefined\<close>\<close>

definition targetItag :: "string option \<Rightarrow> jsnum option" where
  "targetItag itagParam =
     (case itagParam of
        None \<Rightarrow> None
      | Some s \<Rightarrow> if s = [] then None else Some (js_Number s))"

text \<open>\<^verbatim>\<open>targetItag ? formats.find((format) => format.itag === targetItag) : undefined\<close>\<close>

definition explicitFormat :: "jsnum option \<Rightarrow> format list \<Rightarrow> format option" where
  "explicitFormat t fs =
     (case t of
        None \<Rightarrow> None
      | Some n \<Rightarrow> if js_truthy n then find (\<lambda>f. js_strict_eq (itag f) n) fs else None)"

definition isAudioOnly :: "format \<Rightarrow> bool" where
  "isAudioOnly f = (hasAudio f \<and> \<not> hasVideo f)"

definition isCombined :: "format \<Rightarrow> bool" where
  "isCombined f = (hasVideo f \<and> hasAudio f)"

definition isCombinedMp4 :: "format \<Rightarrow> bool" where
  "isCombinedMp4 f = (hasVideo f \<and> hasAudio f \<and> container f = ''mp4'')"

text \<open>\<^verbatim>\<open>Number(f.audioBitrate ?? 0)\<close>\<close>

definition audioBitrateOf :: "format \<Rightarrow> jsnum" where
  "audioBitrateOf f = (case audioBitrate f of None \<Rightarrow> Fin 0 | Some n \<Rightarrow> n)"

text \<open>\<^verbatim>\<open>Number((f.qualityLabel ?? '').replace(/p.*/, ''))\<close>\<close>

definition qualityOf :: "format \<Rightarrow> jsnum" where
  "qualityOf f = js_Number (replace_p_rest (case qualityLabel f of None \<Rightarrow> [] | Some l \<Rightarrow> l))"

definition preferredAudio :: "format list \<Rightarrow> format list" where
  "preferredAudio fs =
     js_sort (\<lambda>a b. js_sub (audioBitrateOf b) (audioBitrateOf a)) (filter isAudioOnly fs)"

definition preferredVideo :: "format list \<Rightarrow> format list" where
  "preferredVideo fs =
     js_sort (\<lambda>a b. js_sub (qualityOf b) (qualityOf a)) (filter isCombinedMp4 fs)"

text \<open>The branch taken when the explicit lookup gave nothing.\<close>

definition defaultFormat :: "string \<Rightarrow> format list \<Rightarrow> format option" where
  "defaultFormat type fs =
     (if type = ''audio''
      then nullish_or (first_element (preferredAudio fs)) (find isAudioOnly fs)
      else nullish_or (first_element (preferredVideo fs)) (find isCombined fs))"

definition selectedFormat :: "string \<Rightarrow> string option \<Rightarrow> format list \<Rightarrow> format option" where
  "selectedFormat type itagParam fs =
     (case explicitFormat (targetItag itagParam) fs of
        Some f \<Rightarrow> Some f
      | None \<Rightarrow> defaultFormat type fs)"

text \<open>
  The headers of the streamed response, in the order the object literal lists them.
  \<^verbatim>\<open>contentLength\<close> is a string of the library, truthy when it is not empty.
\<close>

definition contentType :: "format \<Rightarrow> string" where
  "contentType f =
     (case mimeType f of
        None \<Rightarrow> ''application/octet-stream''
      | Some mt \<Rightarrow> hd (js_split_semicolon mt))"

definition downloadHeaders :: "format \<Rightarrow> string \<Rightarrow> (string \<times> string) list" where
  "downloadHeaders f fileName =
     [(''Content-Type'', contentType f),
      (''Content-Disposition'', ''attachment; filename='' @ [CHR 0x22] @ fileName @ [CHR 0x22])]
     @ (case contentLength f of
          None \<Rightarrow> []
        | Some l \<Rightarrow> if l = [] then [] else [(''Content-Length'', l)])"

text \<open>
  The handler of \<^verbatim>\<open>GET /download\<close>. The request is read through its three query
  parameters, each \<open>None\<close> when absent. \<^verbatim>\<open>toSafeFileName\<close> comes from a module that is not
  part of the sources and is a parameter. The result is the response and the Resolver
  calls made for it: \<^verbatim>\<open>getInfo\<close> and the opening of the stream. The streamed response
  is built inside the \<^verbatim>\<open>try\<close>, after the stream has been opened: when its constructor
  throws on a header value, the \<^verbatim>\<open>catch\<close> answers 500.
\<close>

definition GET ::
  "resolver \<Rightarrow> (string \<Rightarrow> string) \<Rightarrow> string option \<Rightarrow> string option \<Rightarrow> string option
     \<Rightarrow> unit response \<times> resolver_call list" where
  "GET ytdl toSafeFileName urlParam typeParam itagParam =
     (let type = (case typeParam of None \<Rightarrow> ''video'' | Some t \<Rightarrow> t)
      in case urlParam of
           None \<Rightarrow> (jsonError 400 ''Please provide a valid YouTube URL.'', [])
         | Some u \<Rightarrow>
             if \<not> validateURL ytdl u
             then (jsonError 400 ''Please provide a valid YouTube URL.'', [])
             else
               (case getInfo ytdl u of
                  None \<Rightarrow>
                    (jsonError 500 ''Unable to process download. Please try again later.'',
                     [GetInfo u])
                | Some info \<Rightarrow>
                    (case selectedFormat type itagParam (formats info) of
                       None \<Rightarrow>
                         (jsonError 404 ''No matching format available for download.'',
                          [GetInfo u])
                     | Some f \<Rightarrow>
                         (let fileExtension = inferExtension (mimeType f);
                              safeTitle = toSafeFileName (title (videoDetails info));
                              fileName = safeTitle @ ''.'' @ fileExtension;
                              flt = (if type = ''audio'' then audioonly else videoandaudio);
                              calls = [GetInfo u, OpenStream u (itag f) flt]
                          in case newHeaders (downloadHeaders f fileName) of
                               None \<Rightarrow>
                                 (jsonError 500
                                    ''Unable to process download. Please try again later.'',
                                  calls)
                             | Some hs \<Rightarrow>
                                 (\<lparr>status = 200, headers = hs,
                                   body = WebStream u (itag f) flt\<rparr>,
                                  calls)))))"

section \<open>The metadata endpoint\<close>

record mp4Entry =
  mp4_itag :: jsnum
  mp4_qualityLabel :: "string option"
  mp4_container :: string
  mp4_bitrate :: "jsnum option"

record audioEntry =
  audio_itag :: jsnum
  audio_bitrate :: "jsnum option"
  audio_container :: string
  audio_audioSampleRate :: "string option"

record infoPayload =
  payload_title :: string
  payload_author :: string
  payload_thumbnailUrl :: "string option"
  payload_lengthSeconds :: jsnum
  payload_mp4Formats :: "mp4Entry list"
  payload_audioFormats :: "audioEntry list"

text \<open>\<^verbatim>\<open>format.mimeType?.includes(sub)\<close> as a filter condition.\<close>

definition mimeTypeIncludes :: "string \<Rightarrow> format \<Rightarrow> bool" where
  "mimeTypeIncludes sub f = (case mimeType f of None \<Rightarrow> False | Some mt \<Rightarrow> js_includes mt sub)"

definition toMp4Entry :: "format \<Rightarrow> mp4Entry" where
  "toMp4Entry f =
     \<lparr>mp4_itag = itag f, mp4_qualityLabel = qualityLabel f,
      mp4_container = container f, mp4_bitrate = bitrate f\<rparr>"

definition toAudioEntry :: "format \<Rightarrow> audioEntry" where
  "toAudioEntry f =
     \<lparr>audio_itag = itag f, audio_bitrate = bitrate f,
      audio_container = container f, audio_audioSampleRate = audioSampleRate f\<rparr>"

text \<open>The formats behind the two lists of the payload, before they are mapped.\<close>

definition mp4Sources :: "format list \<Rightarrow> format list" where
  "mp4Sources fs = filter (mimeTypeIncludes ''mp4'') (filterFormats fs videoandaudio)"

definition audioSources :: "format list \<Rightarrow> format list" where
  "audioSources fs = filter (mimeTypeIncludes ''audio'') (filterFormats fs audioonly)"

definition mp4Formats :: "format list \<Rightarrow> mp4Entry list" where
  "mp4Formats fs = map toMp4Entry (mp4Sources fs)"

definition audioFormats :: "format list \<Rightarrow> audioEntry list" where
  "audioFormats fs = map toAudioEntry (audioSources fs)"

text \<open>
  What \<^verbatim>\<open>const { url } = await request.json()\<close> can meet: a body that is no JSON or
  is \<^verbatim>\<open>null\<close> (both throw inside the \<^verbatim>\<open>try\<close>), or a value whose \<^verbatim>\<open>url\<close> property is
  a string or is anything else, a missing property included.
\<close>

datatype url_property = UrlString string | UrlOther

datatype request_body = NotJson | JsonNull | JsonValue url_property

definition POST :: "resolver \<Rightarrow> request_body \<Rightarrow> infoPayload response \<times> resolver_call list" where
  "POST ytdl rb =
     (case rb of
        JsonValue (UrlString u) \<Rightarrow>
          if \<not> validateURL ytdl u
          then (jsonError 400 ''Please provide a valid YouTube URL.'', [])
          else
            (case getInfo ytdl u of
               None \<Rightarrow>
                 (jsonError 500 ''Unable to fetch video information. Please try again.'',
                  [GetInfo u])
             | Some info \<Rightarrow>
                 (let vd = videoDetails info
                  in (\<lparr>status = 200, headers = [],
                       body = Json
                         \<lparr>payload_title = title vd,
                          payload_author = author_name vd,
                          payload_thumbnailUrl =
                            (if thumbnails vd = [] then None
                             else Some (thumbnail_url (last (thumbnails vd)))),
                          payload_lengthSeconds = js_Number (lengthSeconds vd),
                          payload_mp4Formats = mp4Formats (formats info),
                          payload_audioFormats = audioFormats (formats info)\<rparr>\<rparr>,
                      [GetInfo u])))
      | JsonValue UrlOther \<Rightarrow> (jsonError 400 ''Please provide a valid YouTube URL.'', [])
      | _ \<Rightarrow> (jsonError 500 ''Unable to fetch video information. Please try again.'', []))"

section \<open>The client's download loop\<close>

type_synonym chunk = "8 word list"

text \<open>
  What the reader delivers: the values of the reads that were not \<^verbatim>\<open>done\<close> (a value may
  be \<^verbatim>\<open>undefined\<close>), and what follows them: a read that is \<^verbatim>\<open>done\<close>, a rejected
  read, or nothing yet, when the stream is still open and the loop waits for its next
  read.
\<close>

datatype stream_end = Exhausted | ReadFailed | Pending

text \<open>
  \<^verbatim>\<open>Math.min(99, Math.round((received / contentLength) * 100))\<close>, with \<open>declared\<close>
  for the number \<^verbatim>\<open>contentLength\<close> of the client. The counter
  \<^verbatim>\<open>received\<close> is a sum of chunk lengths, an integer far below \<open>2^53\<close> for any body a
  browser can hold, and is kept as a natural number.
\<close>

definition progressAfter :: "nat \<Rightarrow> jsnum \<Rightarrow> jsnum" where
  "progressAfter received declared =
     Math_min (Fin 99) (Math_round (js_mul (js_div (Fin (of_nat received)) declared) (Fin 100)))"

text \<open>
  The \<^verbatim>\<open>while (true)\<close> loop over the reads, from a value of the counter on: the
  arguments of the \<^verbatim>\<open>setProgress\<close> calls it makes, in order.
\<close>

fun readLoop :: "jsnum \<Rightarrow> nat \<Rightarrow> chunk option list \<Rightarrow> jsnum list" where
  "readLoop declared received [] = []"
| "readLoop declared received (None # rs) = readLoop declared received rs"
| "readLoop declared received (Some v # rs) =
     (if js_truthy declared
      then progressAfter (received + length v) declared
             # readLoop declared (received + length v) rs
      else readLoop declared (received + length v) rs)"

text \<open>
  The response as \<^verbatim>\<open>handleDownload\<close> sees it: the fetch is rejected, or the response
  is not \<^verbatim>\<open>ok\<close> or has no body, or there is a body to read, with the
  \<^verbatim>\<open>Content-Length\<close> header if one was sent.
\<close>

datatype fetched = FetchRejected | NotOk | Body "string option" "chunk option list" stream_end

text \<open>
  The arguments of all \<^verbatim>\<open>setProgress\<close> calls of one run of \<^verbatim>\<open>handleDownload\<close> with
  video information loaded: \<open>0\<close> at the start, the calls of the loop, and \<open>100\<close> after
  the loop has left by \<^verbatim>\<open>done\<close> and the file has been handed to the browser. The
  steps between the loop and the last call (building the blob and the file name,
  clicking the link) are taken to return normally; the bytes themselves are not part of
  the model.
\<close>

definition handleDownload :: "fetched \<Rightarrow> jsnum list" where
  "handleDownload r =
     Fin 0 #
     (case r of
        Body h reads e \<Rightarrow>
          (let declared = js_Number (case h of None \<Rightarrow> ''0'' | Some l \<Rightarrow> l)
           in readLoop declared 0 reads @ (if e = Exhausted then [Fin 100] else []))
      | _ \<Rightarrow> [])"

text \<open>The chunks among the reads, in order: the values that are not \<^verbatim>\<open>undefined\<close>.\<close>

fun deliveredChunks :: "chunk option list \<Rightarrow> chunk list" where
  "deliveredChunks [] = []"
| "deliveredChunks (None # rs) = deliveredChunks rs"
| "deliveredChunks (Some v # rs) = v # deliveredChunks rs"

text \<open>The bytes received once the first \<open>k\<close> chunks have arrived.\<close>

definition receivedAfter :: "nat \<Rightarrow> chunk option list \<Rightarrow> nat" where
  "receivedAfter k reads = sum_list (map length (take k (deliveredChunks reads)))"

section \<open>Example inputs\<close>

text \<open>
  Three muxed MP4 formats labelled \<^verbatim>\<open>720p60\<close>, \<^verbatim>\<open>1080p\<close> and \<^verbatim>\<open>480p\<close>, in the order
  the Resolver lists them.
\<close>

definition v720 :: format where
  "v720 = \<lparr>itag = Fin 22, url = ''https://r2.example/videoplayback?itag=22'',
      mimeType = Some (''video/mp4; codecs='' @ [CHR 0x22] @ ''avc1.64001F, mp4a.40.2''
                        @ [CHR 0x22]),
      container = ''mp4'',
      qualityLabel = Some ''720p60'', bitrate = Some (Fin 2500000),
      audioBitrate = Some (Fin 192000), audioSampleRate = Some ''44100'',
      contentLength = Some ''52428800'', hasVideo = True, hasAudio = True\<rparr>"

definition v1080 :: format where
  "v1080 = v720\<lparr>itag := Fin 37, url := ''https://r2.example/videoplayback?itag=37'',
      qualityLabel := Some ''1080p''\<rparr>"

definition v480 :: format where
  "v480 = v720\<lparr>itag := Fin 59, url := ''https://r2.example/videoplayback?itag=59'',
      qualityLabel := Some ''480p''\<rparr>"

text \<open>
  Three audio-only formats with the bit rates 128000, 160000 and 96000, and an audio-only
  format whose \<^verbatim>\<open>itag\<close> is \<open>0\<close>.
\<close>

definition a128 :: format where
  "a128 = \<lparr>itag = Fin 140, url = ''https://r2.example/videoplayback?itag=140'',
      mimeType = Some (''audio/mp4; codecs='' @ [CHR 0x22] @ ''mp4a.40.2'' @ [CHR 0x22]),
      container = ''mp4'',
      qualityLabel = None, bitrate = Some (Fin 130000),
      audioBitrate = Some (Fin 128000), audioSampleRate = Some ''44100'',
      contentLength = Some ''3400000'', hasVideo = False, hasAudio = True\<rparr>"

definition a160 :: format where
  "a160 = a128\<lparr>itag := Fin 251, url := ''https://r2.example/videoplayback?itag=251'',
      mimeType := Some (''audio/webm; codecs='' @ [CHR 0x22] @ ''opus'' @ [CHR 0x22]),
      container := ''webm'',
      audioBitrate := Some (Fin 160000)\<rparr>"

definition a96 :: format where
  "a96 = a128\<lparr>itag := Fin 139, url := ''https://r2.example/videoplayback?itag=139'',
      audioBitrate := Some (Fin 96000), contentLength := None\<rparr>"

definition a0 :: format where
  "a0 = a128\<lparr>itag := Fin 0, url := ''https://r2.example/videoplayback?itag=0''\<rparr>"

text \<open>
  A muxed 3GP format, as the Resolver lists it: both tracks, the container \<^verbatim>\<open>3gp\<close>, and
  MPEG-4 codecs named in the parameters of its MIME type.
\<close>

definition v3gp :: format where
  "v3gp = \<lparr>itag = Fin 17, url = ''https://r2.example/videoplayback?itag=17'',
      mimeType = Some (''video/3gpp; codecs='' @ [CHR 0x22] @ ''mp4v.20.3, mp4a.40.2''
                        @ [CHR 0x22]),
      container = ''3gp'',
      qualityLabel = Some ''144p'', bitrate = Some (Fin 80000),
      audioBitrate = Some (Fin 24000), audioSampleRate = Some ''22050'',
      contentLength = Some ''700000'', hasVideo = True, hasAudio = True\<rparr>"

text \<open>A muxed MP4 format whose MIME type holds a line feed.\<close>

definition vLf :: format where
  "vLf = v720\<lparr>mimeType := Some (''video/mp4'' @ [CHR 0x0A] @ ''codecs=avc1.64001F'')\<rparr>"

text \<open>A Resolver that accepts watch URLs of one host and answers every one alike.\<close>

definition exampleDetails :: videoDetails where
  "exampleDetails = \<lparr>title = ''Demo clip'', author_name = ''Demo channel'',
      thumbnails = [\<lparr>thumbnail_url = ''https://i.example/default.jpg''\<rparr>,
                    \<lparr>thumbnail_url = ''https://i.example/maxres.jpg''\<rparr>],
      lengthSeconds = ''212''\<rparr>"

definition exampleResolver :: "format list \<Rightarrow> resolver" where
  "exampleResolver fs =
     \<lparr>validateURL = (\<lambda>u. js_startsWith u ''https://www.youtube.com/watch?v=''),
      getInfo = (\<lambda>u. Some \<lparr>formats = fs, videoDetails = exampleDetails\<rparr>)\<rparr>"

definition exampleUrl :: string where
  "exampleUrl = ''https://www.youtube.com/watch?v=aqz-KE-bpKQ''"

section \<open>The default policy as the specification words it\<close>

text \<open>
  For the kind \<^verbatim>\<open>audio\<close>: the audio-only format with the highest bit rate, and if there
  is none, the first format with an audio track, whether it has a video track or not.
  For the kind \<^verbatim>\<open>video\<close>: the format with both tracks in the canonical container whose
  label parses highest, and if there is none, the first format with both tracks.
\<close>

definition spec_defaultFormat :: "string \<Rightarrow> format list \<Rightarrow> format option" where
  "spec_defaultFormat type fs =
     (if type = ''audio''
      then nullish_or (first_element (preferredAudio fs)) (find hasAudio fs)
      else nullish_or (first_element (preferredVideo fs)) (find isCombined fs))"

section \<open>The progress formula as the specification words it\<close>

text \<open>
  \<open>min(99, floor(received / total * 100))\<close>, in exact arithmetic, for a positive total.
\<close>

definition spec_progress :: "nat \<Rightarrow> nat \<Rightarrow> int" where
  "spec_progress received total' = min 99 \<lfloor>(of_nat received / of_nat total' :: rat) * 100\<rfloor>"

section \<open>The number model\<close>

text \<open>
  The exponent function is the floor of the binary logarithm, and rounding leaves the
  positive integers below \<open>2^53\<close> as they are.
\<close>

lemma pow2_pos: "0 < pow2 k"
  by (simp add: pow2_def)

lemma pow2_nat: "0 \<le> k \<Longrightarrow> pow2 k = 2 ^ nat k"
  by (simp add: pow2_def)

lemma pow2_neg: "k \<le> 0 \<Longrightarrow> pow2 k = 1 / 2 ^ nat (- k)"
  by (cases "k = 0") (simp_all add: pow2_def)

lemma pow2_add: "pow2 (j + k) = pow2 j * pow2 k"
proof -
  have "pow2 k = 2 powi k" for k
    by (simp add: pow2_def power_int_def field_simps)
  then show ?thesis
    by (simp add: power_int_add)
qed

lemma pow2_mono: "j \<le> k \<Longrightarrow> pow2 j \<le> pow2 k"
proof -
  assume "j \<le> k"
  then obtain d where d: "k = j + d" "0 \<le> d"
    by (metis add.commute diff_add_cancel diff_ge_0_iff_ge)
  have "1 \<le> pow2 d"
    using d(2) by (simp add: pow2_nat)
  then show ?thesis
    using pow2_pos [of j] unfolding d(1) pow2_add by (simp add: mult_le_cancel_left1)
qed

lemma ilog2_bounds:
  assumes "0 < a"
  shows "pow2 (ilog2 a) \<le> a \<and> a < pow2 (ilog2 a + 1)"
proof (cases "1 \<le> a")
  case True
  let ?n = "\<lfloor>a\<rfloor>"
  have n: "0 < ?n"
    using True by linarith
  have b: "2 ^ nat (bitlen ?n - 1) \<le> ?n \<and> ?n < 2 ^ nat (bitlen ?n)"
    using bitlen_bounds [OF n] .
  have pos: "0 < bitlen ?n"
    using n bitlen_eq_zero_iff [of ?n] bitlen_nonneg [of ?n] by linarith
  have lo: "(2 :: rat) ^ nat (bitlen ?n - 1) \<le> of_int ?n"
    using b by (metis of_int_le_iff of_int_numeral of_int_power)
  have "?n + 1 \<le> 2 ^ nat (bitlen ?n)"
    using b by simp
  then have hi: "of_int (?n + 1) \<le> (2 :: rat) ^ nat (bitlen ?n)"
    by (metis of_int_le_iff of_int_numeral of_int_power)
  have fl: "of_int ?n \<le> a" "a < of_int (?n + 1)"
    by linarith+
  have "pow2 (ilog2 a) = 2 ^ nat (bitlen ?n - 1)"
    using True pos by (simp add: ilog2_def pow2_nat)
  moreover have "pow2 (ilog2 a + 1) = 2 ^ nat (bitlen ?n)"
    using True pos by (simp add: ilog2_def pow2_nat)
  ultimately show ?thesis
    using lo hi fl by linarith
next
  case False
  let ?c = "\<lceil>1 / a\<rceil>"
  let ?k = "bitlen (?c - 1)"
  have inv: "1 < 1 / a"
    using assms False by simp
  then have m: "0 < ?c - 1"
    by linarith
  have b: "2 ^ nat (?k - 1) \<le> ?c - 1 \<and> ?c - 1 < 2 ^ nat ?k"
    using bitlen_bounds [OF m] .
  have pos: "0 < ?k"
    using m bitlen_eq_zero_iff [of "?c - 1"] bitlen_nonneg [of "?c - 1"] by linarith
  have "?c \<le> 2 ^ nat ?k"
    using b by simp
  then have "of_int ?c \<le> (2 :: rat) ^ nat ?k"
    by (metis of_int_le_iff of_int_numeral of_int_power)
  moreover have "1 / a \<le> of_int ?c"
    by linarith
  ultimately have "1 / a \<le> 2 ^ nat ?k"
    by linarith
  then have lo: "1 / 2 ^ nat ?k \<le> a"
    using assms by (simp add: field_simps)
  have "(2 :: rat) ^ nat (?k - 1) \<le> of_int (?c - 1)"
    using b by (metis of_int_le_iff of_int_numeral of_int_power)
  moreover have "of_int (?c - 1) < 1 / a"
    by linarith
  ultimately have "2 ^ nat (?k - 1) < 1 / a"
    by linarith
  then have hi: "a < 1 / 2 ^ nat (?k - 1)"
    using assms by (simp add: field_simps)
  have e: "ilog2 a = - ?k"
    using False by (simp add: ilog2_def)
  have "pow2 (- ?k) = 1 / 2 ^ nat ?k"
    using pos by (simp add: pow2_neg)
  moreover have "pow2 (- ?k + 1) = 1 / 2 ^ nat (?k - 1)"
    using pos pow2_neg [of "- ?k + 1"] by simp
  ultimately show ?thesis
    using lo hi unfolding e by simp
qed


lemma ilog2_less: "0 < a \<Longrightarrow> a < pow2 k \<Longrightarrow> ilog2 a < k"
proof (rule ccontr)
  assume a: "0 < a" "a < pow2 k" and "\<not> ilog2 a < k"
  then have "pow2 k \<le> pow2 (ilog2 a)"
    by (simp add: pow2_mono)
  then show False
    using ilog2_bounds [OF a(1)] a(2) by linarith
qed

lemma round_half_even_int: "round_half_even (of_int n) = n"
  by (simp add: round_half_even_def)

lemma round_double_exact_nat:
  assumes "0 < n" and "n < 2 ^ 53"
  shows "round_double (of_int n) = Fin (of_int n)"
proof -
  let ?a = "of_int n :: rat"
  have a: "0 < ?a" "\<bar>?a\<bar> = ?a"
    using assms(1) by simp_all
  have "?a < pow2 53"
    using assms(2) by (simp add: pow2_nat)
  then have e: "ilog2 ?a < 53"
    using a(1) by (rule ilog2_less [rotated])
  have "pow2 0 \<le> ?a"
    using assms(1) by (simp add: pow2_def)
  have e0: "0 \<le> ilog2 ?a"
  proof (rule ccontr)
    assume "\<not> 0 \<le> ilog2 ?a"
    then have "ilog2 ?a + 1 \<le> 0" by simp
    then have "pow2 (ilog2 ?a + 1) \<le> pow2 0" by (rule pow2_mono)
    then show False
      using ilog2_bounds [OF a(1)] \<open>pow2 0 \<le> ?a\<close> by linarith
  qed
  let ?q = "ilog2 ?a - 52"
  have q: "max ?q (- 1074) = ?q" "?q \<le> 0"
    using e e0 by simp_all
  have scaled: "?a / pow2 ?q = of_int (n * 2 ^ nat (- ?q))"
    using q(2) by (simp add: pow2_neg)
  have restore: "of_int (n * 2 ^ nat (- ?q)) * pow2 ?q = ?a"
    using q(2) by (simp add: pow2_neg)
  have v: "of_int (round_half_even (?a / pow2 ?q)) * pow2 ?q = ?a"
    unfolding scaled round_half_even_int restore ..
  have "\<not> (1 \<le> ?a \<and> 1024 \<le> ilog2 ?a)"
    using e by simp
  then show ?thesis
    using a assms(1) by (simp add: round_double_def Let_def q(1) v del: of_int_mult of_int_power)
qed

text \<open>Readings of \<^verbatim>\<open>Number\<close> on some strings, as an engine gives them.\<close>

lemma Number_empty: "js_Number '''' = Fin 0"
  by code_simp

lemma Number_blank: "js_Number ''  '' = Fin 0"
  by code_simp

lemma Number_text: "js_Number ''abc'' = NaN"
  by code_simp

lemma Number_trailing: "js_Number ''18px'' = NaN"
  by code_simp

lemma Number_spaces: "js_Number '' 18 '' = Fin 18"
  by code_simp

lemma Number_hex: "js_Number ''0x12'' = Fin 18"
  by code_simp

lemma Number_exponent: "js_Number ''1.8e1'' = Fin 18"
  by code_simp

lemma Number_negative: "js_Number ''-2.5'' = Fin (- 5 / 2)"
  by code_simp

lemma Number_tenth: "js_Number ''0.1'' = Fin (3602879701896397 / 36028797018963968)"
  by code_simp

lemma Number_tie_to_even: "js_Number ''9007199254740993'' = Fin 9007199254740992"
  by code_simp

lemma Number_infinity: "js_Number ''-Infinity'' = NInf"
  by code_simp

section \<open>Order, sorting and searching\<close>

lemma js_lt_irrefl: "\<not> js_lt a a"
  by (cases a) simp_all

lemma js_lt_trans: "js_lt a b \<Longrightarrow> js_lt b c \<Longrightarrow> js_lt a c"
  by (cases a; cases b; cases c) simp_all

lemma js_le_refl: "a \<noteq> NaN \<Longrightarrow> js_le a a"
  by (simp add: js_le_def js_strict_eq_def)

lemma js_lt_imp_le: "js_lt a b \<Longrightarrow> js_le a b"
  by (simp add: js_le_def)

lemma js_le_trans: "js_le a b \<Longrightarrow> js_le b c \<Longrightarrow> js_le a c"
  by (auto simp: js_le_def js_strict_eq_def intro: js_lt_trans)

lemma js_lt_le_trans: "js_lt a b \<Longrightarrow> js_le b c \<Longrightarrow> js_lt a c"
  by (auto simp: js_le_def js_strict_eq_def intro: js_lt_trans)

lemma js_not_lt_iff_le: "a \<noteq> NaN \<Longrightarrow> b \<noteq> NaN \<Longrightarrow> (\<not> js_lt a b) = js_le b a"
  by (cases a; cases b) (auto simp: js_le_def js_strict_eq_def)

lemma js_positive_sub: 
  "a \<noteq> NaN \<Longrightarrow> b \<noteq> NaN \<Longrightarrow> js_positive (js_sub a b) = js_lt b a"
  by (cases a; cases b) (simp_all add: js_positive_def)

lemma first_element_None: "(first_element xs = None) = (xs = [])"
  by (cases xs) simp_all

lemma js_insert_first:
  "first_element (js_insert cmp x ys) =
     (case first_element ys of
        None \<Rightarrow> Some x
      | Some y \<Rightarrow> if js_positive (cmp x y) then Some y else Some x)"
  by (cases ys) simp_all

lemma set_js_insert: "set (js_insert cmp x ys) = insert x (set ys)"
  by (induction ys) auto

lemma set_js_sort: "set (js_sort cmp xs) = set xs"
  by (induction xs) (simp_all add: set_js_insert)

lemma length_js_insert: "length (js_insert cmp x ys) = Suc (length ys)"
  by (induction ys) simp_all

lemma length_js_sort: "length (js_sort cmp xs) = length xs"
  by (induction xs) (simp_all add: length_js_insert)

lemma js_sort_first_None: "(first_element (js_sort cmp xs) = None) = (xs = [])"
  by (metis first_element_None length_0_conv length_js_sort)

lemma js_sort_first_max:
  fixes key :: "'a \<Rightarrow> jsnum"
  assumes "xs \<noteq> []" and "\<forall>x\<in>set xs. key x \<noteq> NaN"
  shows "\<exists>pre f post. xs = pre @ f # post
           \<and> first_element (js_sort (\<lambda>a b. js_sub (key b) (key a)) xs) = Some f
           \<and> (\<forall>g\<in>set pre. js_lt (key g) (key f))
           \<and> (\<forall>g\<in>set post. js_le (key g) (key f))"
  using assms
proof (induction xs)
  case Nil
  then show ?case by simp
next
  case (Cons x xs)
  let ?cmp = "\<lambda>a b. js_sub (key b) (key a)"
  show ?case
  proof (cases "xs = []")
    case True
    then have "x # xs = [] @ x # [] \<and> first_element (js_sort ?cmp (x # xs)) = Some x"
      by simp
    then show ?thesis using True by fastforce
  next
    case False
    with Cons obtain pre h post where
      split: "xs = pre @ h # post" and
      hd: "first_element (js_sort ?cmp xs) = Some h" and
      before: "\<forall>g\<in>set pre. js_lt (key g) (key h)" and
      after: "\<forall>g\<in>set post. js_le (key g) (key h)"
      by auto
    have nx: "key x \<noteq> NaN" and nh: "key h \<noteq> NaN"
      using Cons.prems split by auto
    show ?thesis
    proof (cases "js_lt (key x) (key h)")
      case True
      then have "first_element (js_sort ?cmp (x # xs)) = Some h"
        using hd nx nh by (simp add: js_insert_first js_positive_sub)
      moreover have "x # xs = (x # pre) @ h # post"
        using split by simp
      moreover have "\<forall>g\<in>set (x # pre). js_lt (key g) (key h)"
        using True before by simp
      ultimately show ?thesis using after by blast
    next
      case False
      then have sel: "first_element (js_sort ?cmp (x # xs)) = Some x"
        using hd nx nh by (simp add: js_insert_first js_positive_sub)
      have hx: "js_le (key h) (key x)"
        using False nx nh by (simp add: js_not_lt_iff_le)
      have "\<forall>g\<in>set xs. js_le (key g) (key x)"
      proof
        fix g assume "g \<in> set xs"
        then consider "g \<in> set pre" | "g = h" | "g \<in> set post"
          using split by auto
        then show "js_le (key g) (key x)"
        proof cases
          case 1
          then show ?thesis using before hx js_lt_imp_le js_le_trans by blast
        next
          case 2
          then show ?thesis using hx by simp
        next
          case 3
          then show ?thesis using after hx js_le_trans by blast
        qed
      qed
      moreover have "x # xs = [] @ x # xs" by simp
      ultimately show ?thesis using sel by (metis empty_iff list.set(1))
    qed
  qed
qed

lemma filter_split:
  assumes "filter P xs = pre' @ f # post'"
  shows "\<exists>pre post. xs = pre @ f # post \<and> filter P pre = pre' \<and> filter P post = post' \<and> P f"
  using assms
proof (induction xs arbitrary: pre')
  case Nil
  then show ?case by simp
next
  case (Cons x xs)
  show ?case
  proof (cases "P x")
    case False
    with Cons.prems have "filter P xs = pre' @ f # post'" by simp
    from Cons.IH [OF this] obtain pre post where
      "xs = pre @ f # post" "filter P pre = pre'" "filter P post = post'" "P f"
      by blast
    then have "x # xs = (x # pre) @ f # post \<and> filter P (x # pre) = pre'
                 \<and> filter P post = post' \<and> P f"
      using False by simp
    then show ?thesis by blast
  next
    case True
    show ?thesis
    proof (cases pre')
      case Nil
      with Cons.prems True have "x = f" and "filter P xs = post'" by simp_all
      then have "x # xs = [] @ f # xs \<and> filter P [] = pre' \<and> filter P xs = post' \<and> P f"
        using Nil True by simp
      then show ?thesis by blast
    next
      case (Cons y ys)
      with Cons.prems True have "y = x" and "filter P xs = ys @ f # post'" by simp_all
      from Cons.IH [OF this(2)] obtain pre post where
        "xs = pre @ f # post" "filter P pre = ys" "filter P post = post'" "P f"
        by blast
      then have "x # xs = (x # pre) @ f # post \<and> filter P (x # pre) = pre'
                   \<and> filter P post = post' \<and> P f"
        using True Cons \<open>y = x\<close> by simp
      then show ?thesis by blast
    qed
  qed
qed

lemma find_skip: "\<forall>g\<in>set pre. \<not> P g \<Longrightarrow> find P (pre @ ys) = find P ys"
  by (induction pre) simp_all

lemma find_first:
  "(find P xs = Some f) = (\<exists>pre post. xs = pre @ f # post \<and> P f \<and> (\<forall>g\<in>set pre. \<not> P g))"
proof
  show "find P xs = Some f \<Longrightarrow> \<exists>pre post. xs = pre @ f # post \<and> P f \<and> (\<forall>g\<in>set pre. \<not> P g)"
  proof (induction xs)
    case Nil
    then show ?case by simp
  next
    case (Cons x xs)
    show ?case
    proof (cases "P x")
      case True
      with Cons.prems have "x # xs = [] @ f # xs \<and> P f \<and> (\<forall>g\<in>set []. \<not> P g)" by simp
      then show ?thesis by blast
    next
      case False
      with Cons obtain pre post where "xs = pre @ f # post" "P f" "\<forall>g\<in>set pre. \<not> P g"
        by auto
      then have "x # xs = (x # pre) @ f # post \<and> P f \<and> (\<forall>g\<in>set (x # pre). \<not> P g)"
        using False by simp
      then show ?thesis by blast
    qed
  qed
next
  assume "\<exists>pre post. xs = pre @ f # post \<and> P f \<and> (\<forall>g\<in>set pre. \<not> P g)"
  then show "find P xs = Some f"
    by (auto simp: find_skip)
qed

lemma find_None: "(find P xs = None) = (\<forall>g\<in>set xs. \<not> P g)"
  by (auto simp: find_None_iff)


section \<open>Default selection for video\<close>

lemma number_720p60: "js_Number (replace_p_rest ''720p60'') = Fin 720"
  by code_simp

lemma number_1080p: "js_Number (replace_p_rest ''1080p'') = Fin 1080"
  by code_simp

lemma number_480p: "js_Number (replace_p_rest ''480p'') = Fin 480"
  by code_simp

lemma number_1080p60: "js_Number (replace_p_rest ''1080p60'') = Fin 1080"
  by code_simp

lemma qualityOf_examples:
  "qualityOf v720 = Fin 720" "qualityOf v1080 = Fin 1080" "qualityOf v480 = Fin 480"
  by (simp_all add: qualityOf_def v720_def v1080_def v480_def
        number_720p60 number_1080p number_480p del: replace_p_rest.simps)

lemma isCombinedMp4_examples:
  "isCombinedMp4 v720" "isCombinedMp4 v1080" "isCombinedMp4 v480"
  by (simp_all add: isCombinedMp4_def v720_def v1080_def v480_def)

text \<open>
  C1. When the explicit lookup gives nothing and the kind is not \<^verbatim>\<open>audio\<close>, the selected
  format is, among the formats with both tracks in the \<^verbatim>\<open>mp4\<close> container, the first one
  in the Resolver's order whose parsed quality label is the greatest: every such format
  before it has a smaller value, every such format after it has a value that is not
  greater. If there is no such format, it is the first format in the Resolver's order that
  has both tracks, whatever its container; if there is none of these either, nothing is
  selected. The labels of the candidates are taken to parse to numbers.
\<close>

theorem C1_video_default:
  assumes "explicitFormat (targetItag itagParam) fs = None"
    and "type \<noteq> ''audio''"
    and "\<forall>f\<in>set fs. isCombinedMp4 f \<longrightarrow> qualityOf f \<noteq> NaN"
  shows "if \<exists>f\<in>set fs. isCombinedMp4 f
         then \<exists>pre f post. fs = pre @ f # post
                \<and> selectedFormat type itagParam fs = Some f
                \<and> isCombinedMp4 f
                \<and> (\<forall>g\<in>set pre. isCombinedMp4 g \<longrightarrow> js_lt (qualityOf g) (qualityOf f))
                \<and> (\<forall>g\<in>set post. isCombinedMp4 g \<longrightarrow> js_le (qualityOf g) (qualityOf f))
         else if \<exists>f\<in>set fs. isCombined f
         then \<exists>pre f post. fs = pre @ f # post
                \<and> selectedFormat type itagParam fs = Some f
                \<and> isCombined f
                \<and> (\<forall>g\<in>set pre. \<not> isCombined g)
         else selectedFormat type itagParam fs = None"
proof -
  let ?cands = "filter isCombinedMp4 fs"
  have sel: "selectedFormat type itagParam fs =
               nullish_or (first_element (preferredVideo fs)) (find isCombined fs)"
    using assms(1,2) by (simp add: selectedFormat_def defaultFormat_def)
  show ?thesis
  proof (cases "\<exists>f\<in>set fs. isCombinedMp4 f")
    case True
    then have ne: "?cands \<noteq> []"
      by (simp add: filter_empty_conv)
    have nn: "\<forall>f\<in>set ?cands. qualityOf f \<noteq> NaN"
      using assms(3) by simp
    from js_sort_first_max [OF ne nn] obtain pre' f post' where
      split': "?cands = pre' @ f # post'" and
      first: "first_element (preferredVideo fs) = Some f" and
      before': "\<forall>g\<in>set pre'. js_lt (qualityOf g) (qualityOf f)" and
      after': "\<forall>g\<in>set post'. js_le (qualityOf g) (qualityOf f)"
      unfolding preferredVideo_def by blast
    from filter_split [OF split'] obtain pre post where
      split: "fs = pre @ f # post" and
      pre: "filter isCombinedMp4 pre = pre'" and
      post: "filter isCombinedMp4 post = post'" and
      f: "isCombinedMp4 f"
      by blast
    have "\<forall>g\<in>set pre. isCombinedMp4 g \<longrightarrow> js_lt (qualityOf g) (qualityOf f)"
      using before' pre by auto
    moreover have "\<forall>g\<in>set post. isCombinedMp4 g \<longrightarrow> js_le (qualityOf g) (qualityOf f)"
      using after' post by auto
    moreover have "selectedFormat type itagParam fs = Some f"
      using sel first by simp
    ultimately show ?thesis using True split f by auto
  next
    case False
    then have "?cands = []"
      by (simp add: filter_empty_conv)
    then have fallback: "selectedFormat type itagParam fs = find isCombined fs"
      using sel by (simp add: preferredVideo_def)
    show ?thesis
    proof (cases "\<exists>f\<in>set fs. isCombined f")
      case True
      then obtain f where "find isCombined fs = Some f"
        by (cases "find isCombined fs") (auto simp: find_None)
      then show ?thesis
        using False True fallback by (auto simp: find_first)
    next
      case none: False
      then have "find isCombined fs = None"
        by (simp add: find_None)
      then show ?thesis
        using False none fallback by simp
    qed
  qed
qed

theorem C1_video_default_witness:
  "explicitFormat (targetItag None) [v720, v1080, v480] = None
   \<and> js_Number (replace_p_rest ''1080p60'') = Fin 1080
   \<and> qualityOf v720 = Fin 720 \<and> qualityOf v1080 = Fin 1080 \<and> qualityOf v480 = Fin 480
   \<and> selectedFormat ''video'' None [v720, v1080, v480] = Some v1080"
proof -
  let ?fs = "[v720, v1080, v480]"
  have h1: "explicitFormat (targetItag None) ?fs = None"
    by (simp add: targetItag_def explicitFormat_def)
  have h2: "''video'' \<noteq> ''audio''"
    by simp
  have h3: "\<forall>f\<in>set ?fs. isCombinedMp4 f \<longrightarrow> qualityOf f \<noteq> NaN"
    by (simp add: qualityOf_examples)
  have some: "\<exists>f\<in>set ?fs. isCombinedMp4 f"
    by (simp add: isCombinedMp4_examples)
  from C1_video_default [OF h1 h2 h3] some
  obtain pre f post where
    split: "?fs = pre @ f # post" and
    sel: "selectedFormat ''video'' None ?fs = Some f" and
    before: "\<forall>g\<in>set pre. isCombinedMp4 g \<longrightarrow> js_lt (qualityOf g) (qualityOf f)" and
    after: "\<forall>g\<in>set post. isCombinedMp4 g \<longrightarrow> js_le (qualityOf g) (qualityOf f)"
    by auto
  from split consider
    "pre = [] \<and> f = v720 \<and> post = [v1080, v480]"
    | "pre = [v720] \<and> f = v1080 \<and> post = [v480]"
    | "pre = [v720, v1080] \<and> f = v480 \<and> post = []"
    by (auto simp: Cons_eq_append_conv)
  then have "f = v1080"
  proof cases
    case 1
    then show ?thesis
      using after by (simp add: isCombinedMp4_examples qualityOf_examples js_le_def js_strict_eq_def)
  next
    case 2
    then show ?thesis by simp
  next
    case 3
    then show ?thesis
      using before by (simp add: isCombinedMp4_examples qualityOf_examples)
  qed
  then show ?thesis
    using sel h1 by (simp add: qualityOf_examples number_1080p60 del: replace_p_rest.simps)
qed

section \<open>Facts about the example inputs\<close>

lemma isAudioOnly_examples:
  "isAudioOnly a128" "isAudioOnly a160" "isAudioOnly a96" "isAudioOnly a0"
  "\<not> isAudioOnly v720" "\<not> isAudioOnly v1080" "\<not> isAudioOnly v480" "\<not> isAudioOnly v3gp"
  by (simp_all add: isAudioOnly_def a128_def a160_def a96_def a0_def v720_def v1080_def
        v480_def v3gp_def)

lemma isCombined_examples:
  "\<not> isCombined a128" "\<not> isCombined a160" "\<not> isCombined a96" "\<not> isCombined a0"
  "isCombined v720" "isCombined v1080" "isCombined v480" "isCombined v3gp"
  by (simp_all add: isCombined_def a128_def a160_def a96_def a0_def v720_def v1080_def
        v480_def v3gp_def)

lemma isCombinedMp4_audio_examples:
  "\<not> isCombinedMp4 a128" "\<not> isCombinedMp4 a160" "\<not> isCombinedMp4 a96" "\<not> isCombinedMp4 a0"
  "\<not> isCombinedMp4 v3gp"
  by (simp_all add: isCombinedMp4_def a128_def a160_def a96_def a0_def v3gp_def)

lemma audioBitrateOf_examples:
  "audioBitrateOf a128 = Fin 128000" "audioBitrateOf a160 = Fin 160000"
  "audioBitrateOf a96 = Fin 96000"
  by (simp_all add: audioBitrateOf_def a128_def a160_def a96_def)

lemma exampleResolver_valid: "validateURL (exampleResolver fs) exampleUrl"
  by (simp add: exampleResolver_def exampleUrl_def)

lemma exampleResolver_info:
  "getInfo (exampleResolver fs) u = Some \<lparr>formats = fs, videoDetails = exampleDetails\<rparr>"
  by (simp add: exampleResolver_def)

lemma number_0: "js_Number ''0'' = Fin 0"
  by code_simp
lemma number_37: "js_Number ''37'' = Fin 37"
  by code_simp
lemma number_999: "js_Number ''999'' = Fin 999"
  by code_simp

lemma itag_examples:
  "itag v720 = Fin 22" "itag v1080 = Fin 37" "itag v480 = Fin 59" "itag a0 = Fin 0"
  "itag a128 = Fin 140"
  by (simp_all add: v720_def v1080_def v480_def a0_def a128_def)

lemma number_139: "js_Number ''139'' = Fin 139"
  by code_simp

lemma itag_audio_examples: "itag a96 = Fin 139" "itag a160 = Fin 251"
  by (simp_all add: a96_def a160_def a128_def)

lemma selected_audio_default: "selectedFormat ''audio'' None [a128, a96] = Some a128"
  by (simp add: selectedFormat_def targetItag_def explicitFormat_def defaultFormat_def
        preferredAudio_def isAudioOnly_examples audioBitrateOf_examples js_positive_def)

lemma selected_audio_139: "selectedFormat ''audio'' (Some ''139'') [a128, a96] = Some a96"
  by (simp add: selectedFormat_def targetItag_def explicitFormat_def number_139
        itag_examples itag_audio_examples js_strict_eq_def)


section \<open>The cases of the download handler\<close>

lemma type_is_audio:
  "((case typeParam of None \<Rightarrow> ''video'' | Some t \<Rightarrow> t) = ''audio'') = (typeParam = Some ''audio'')"
  by (cases typeParam) simp_all

lemma GET_selected:
  assumes "validateURL ytdl u" and "getInfo ytdl u = Some info"
    and "selectedFormat (case typeParam of None \<Rightarrow> ''video'' | Some t \<Rightarrow> t) itagParam (formats info) = Some f"
    and "headerValuesAccepted (downloadHeaders f
           (toSafeFileName (title (videoDetails info)) @ ''.'' @ inferExtension (mimeType f)))"
  shows "GET ytdl toSafeFileName (Some u) typeParam itagParam =
           (\<lparr>status = 200,
             headers = map (\<lambda>(n, v). (n, headerValueNormalize v))
               (downloadHeaders f
                 (toSafeFileName (title (videoDetails info)) @ ''.'' @ inferExtension (mimeType f))),
             body = WebStream u (itag f)
               (if typeParam = Some ''audio'' then audioonly else videoandaudio)\<rparr>,
            [GetInfo u, OpenStream u (itag f)
               (if typeParam = Some ''audio'' then audioonly else videoandaudio)])"
  using assms by (simp add: GET_def Let_def type_is_audio newHeaders_def)

lemma GET_rejected_headers:
  assumes "validateURL ytdl u" and "getInfo ytdl u = Some info"
    and "selectedFormat (case typeParam of None \<Rightarrow> ''video'' | Some t \<Rightarrow> t) itagParam (formats info) = Some f"
    and "\<not> headerValuesAccepted (downloadHeaders f
           (toSafeFileName (title (videoDetails info)) @ ''.'' @ inferExtension (mimeType f)))"
  shows "GET ytdl toSafeFileName (Some u) typeParam itagParam =
           (jsonError 500 ''Unable to process download. Please try again later.'',
            [GetInfo u, OpenStream u (itag f)
               (if typeParam = Some ''audio'' then audioonly else videoandaudio)])"
  using assms by (simp add: GET_def Let_def type_is_audio newHeaders_def)





lemma GET_no_format:
  "validateURL ytdl u \<Longrightarrow> getInfo ytdl u = Some info \<Longrightarrow>
   selectedFormat (case typeParam of None \<Rightarrow> ''video'' | Some t \<Rightarrow> t) itagParam (formats info) = None \<Longrightarrow>
     GET ytdl toSafeFileName (Some u) typeParam itagParam
       = (jsonError 404 ''No matching format available for download.'', [GetInfo u])"
  by (simp add: GET_def)

text \<open>
  Once the URL is accepted and the Resolver has answered, the endpoint answers 404 exactly
  when the selection of the code gives no format.
\<close>

lemma GET_404_iff:
  assumes "validateURL ytdl u" and "getInfo ytdl u = Some info"
  shows "(status (fst (GET ytdl toSafeFileName (Some u) typeParam itagParam)) = 404)
       = (selectedFormat (case typeParam of None \<Rightarrow> ''video'' | Some t \<Rightarrow> t) itagParam
            (formats info) = None)"
proof (cases "selectedFormat (case typeParam of None \<Rightarrow> ''video'' | Some t \<Rightarrow> t) itagParam
            (formats info)")
  case None
  then show ?thesis
    by (simp add: GET_no_format [OF assms None] jsonError_def)
next
  case (Some f)
  show ?thesis
  proof (cases "headerValuesAccepted (downloadHeaders f
           (toSafeFileName (title (videoDetails info)) @ ''.'' @ inferExtension (mimeType f)))")
    case True
    show ?thesis
      unfolding GET_selected [where toSafeFileName = toSafeFileName, OF assms Some True] using Some by simp
  next
    case False
    show ?thesis
      unfolding GET_rejected_headers [where toSafeFileName = toSafeFileName, OF assms Some False] using Some by (simp add: jsonError_def)
  qed
qed

section \<open>Invalid URLs\<close>

text \<open>
  C7. For a string that the Resolver does not accept as a video URL, the download
  endpoint and the metadata endpoint both answer with status 400 and an error message,
  and neither calls \<^verbatim>\<open>getInfo\<close> or opens a stream: the list of Resolver calls is empty.
\<close>

theorem C7_invalid_url:
  assumes "\<not> validateURL ytdl u"
  shows "GET ytdl toSafeFileName (Some u) typeParam itagParam
           = (jsonError 400 ''Please provide a valid YouTube URL.'', [])
         \<and> POST ytdl (JsonValue (UrlString u))
           = (jsonError 400 ''Please provide a valid YouTube URL.'', [])"
  using assms by (simp add: GET_def POST_def)

theorem C7_invalid_url_witness:
  "\<not> validateURL (exampleResolver []) ''not a url''
   \<and> status (fst (GET (exampleResolver []) id (Some ''not a url'') None None)) = 400
   \<and> snd (GET (exampleResolver []) id (Some ''not a url'') None None) = []
   \<and> status (fst (POST (exampleResolver []) (JsonValue (UrlString ''not a url'')))) = 400
   \<and> snd (POST (exampleResolver []) (JsonValue (UrlString ''not a url''))) = []"
proof -
  have h: "\<not> validateURL (exampleResolver []) ''not a url''"
    by (simp add: exampleResolver_def)
  show ?thesis
    using h C7_invalid_url [OF h, of id None None] by (simp add: jsonError_def)
qed

section \<open>No matching format\<close>

lemma nullish_or_None: "(nullish_or a b = None) = (a = None \<and> b = None)"
  by (cases a) simp_all

lemma preferredAudio_empty:
  "(first_element (preferredAudio fs) = None) = (\<forall>f\<in>set fs. \<not> isAudioOnly f)"
  by (simp add: preferredAudio_def js_sort_first_None filter_empty_conv)

lemma preferredVideo_empty:
  "(first_element (preferredVideo fs) = None) = (\<forall>f\<in>set fs. \<not> isCombinedMp4 f)"
  by (simp add: preferredVideo_def js_sort_first_None filter_empty_conv)

lemma defaultFormat_None:
  "(defaultFormat type fs = None) =
     (if type = ''audio'' then \<forall>f\<in>set fs. \<not> isAudioOnly f else \<forall>f\<in>set fs. \<not> isCombined f)"
proof (cases "type = ''audio''")
  case True
  then show ?thesis
    by (simp add: defaultFormat_def nullish_or_None preferredAudio_empty find_None)
next
  case False
  have "\<forall>f\<in>set fs. \<not> isCombined f \<Longrightarrow> \<forall>f\<in>set fs. \<not> isCombinedMp4 f"
    by (auto simp: isCombined_def isCombinedMp4_def)
  with False show ?thesis
    by (auto simp: defaultFormat_def nullish_or_None preferredVideo_empty find_None)
qed

lemma selectedFormat_None:
  "(selectedFormat type itagParam fs = None) =
     (explicitFormat (targetItag itagParam) fs = None \<and> defaultFormat type fs = None)"
  by (simp add: selectedFormat_def split: option.splits)

text \<open>
  The policy of the specification and the policy of the code are one for every kind other
  than \<^verbatim>\<open>audio\<close>. For the kind \<^verbatim>\<open>audio\<close> the policy of the specification gives
  nothing only when no format has an audio track, the policy of the code already when no
  format is audio-only: where the specification determines nothing the code determines
  nothing, and not the other way round.
\<close>

lemma spec_defaultFormat_video:
  "type \<noteq> ''audio'' \<Longrightarrow> spec_defaultFormat type fs = defaultFormat type fs"
  by (simp add: spec_defaultFormat_def defaultFormat_def)

lemma spec_defaultFormat_audio_None:
  "(spec_defaultFormat ''audio'' fs = None) = (\<forall>f\<in>set fs. \<not> hasAudio f)"
proof -
  have "\<forall>f\<in>set fs. \<not> hasAudio f \<Longrightarrow> \<forall>f\<in>set fs. \<not> isAudioOnly f"
    by (simp add: isAudioOnly_def)
  then show ?thesis
    by (auto simp: spec_defaultFormat_def nullish_or_None preferredAudio_empty find_None)
qed

lemma spec_defaultFormat_None_imp:
  "spec_defaultFormat type fs = None \<Longrightarrow> defaultFormat type fs = None"
proof (cases "type = ''audio''")
  case True
  assume "spec_defaultFormat type fs = None"
  with True have "\<forall>f\<in>set fs. \<not> hasAudio f"
    by (simp add: spec_defaultFormat_audio_None)
  then have "\<forall>f\<in>set fs. \<not> isAudioOnly f"
    by (simp add: isAudioOnly_def)
  with True show ?thesis
    by (simp add: defaultFormat_None)
next
  case False
  assume "spec_defaultFormat type fs = None"
  with False show ?thesis
    by (simp add: spec_defaultFormat_video)
qed

text \<open>
  C5. The endpoint answers 404 although the default policy, with the fallback the
  specification gives it, determines a format: for the kind \<^verbatim>\<open>audio\<close>, no explicit id
  and a list that holds one format with both tracks, the explicit lookup finds nothing,
  the policy of the specification falls back to that format, the first with an audio
  track, and the endpoint answers 404 with the error message of a missing format, after
  the metadata call and without opening a stream.
\<close>

theorem C5_not_found_despite_fallback:
  "explicitFormat (targetItag None) [v720] = None
   \<and> spec_defaultFormat ''audio'' [v720] = Some v720
   \<and> GET (exampleResolver [v720]) id (Some exampleUrl) (Some ''audio'') None
       = (jsonError 404 ''No matching format available for download.'', [GetInfo exampleUrl])"
proof -
  have e: "explicitFormat (targetItag None) [v720] = None"
    by (simp add: targetItag_def explicitFormat_def)
  have p: "spec_defaultFormat ''audio'' [v720] = Some v720"
    by (simp add: spec_defaultFormat_def preferredAudio_def isAudioOnly_examples v720_def)
  have s: "selectedFormat (case Some ''audio'' of None \<Rightarrow> ''video'' | Some t \<Rightarrow> t) None
             (formats \<lparr>formats = [v720], videoDetails = exampleDetails\<rparr>) = None"
    by (simp add: selectedFormat_def e defaultFormat_def preferredAudio_def isAudioOnly_examples)
  have g: "GET (exampleResolver [v720]) id (Some exampleUrl) (Some ''audio'') None
       = (jsonError 404 ''No matching format available for download.'', [GetInfo exampleUrl])"
    by (rule GET_no_format [OF exampleResolver_valid exampleResolver_info s])
  show ?thesis
    using e p g by simp
qed

section \<open>Default selection for audio\<close>

text \<open>
  C2. When the explicit lookup gives nothing, the kind is \<^verbatim>\<open>audio\<close> and the list has a
  format with an audio track and no video track, the selected format is the first such
  format in the Resolver's order whose audio bit rate is the greatest: every such format
  before it has a smaller bit rate, every such format after it has a bit rate that is not
  greater. A missing bit rate counts as \<open>0\<close>; the bit rates of the candidates are taken
  to be numbers.
\<close>

theorem C2_audio_default:
  assumes "explicitFormat (targetItag itagParam) fs = None"
    and "\<exists>f\<in>set fs. isAudioOnly f"
    and "\<forall>f\<in>set fs. isAudioOnly f \<longrightarrow> audioBitrateOf f \<noteq> NaN"
  shows "\<exists>pre f post. fs = pre @ f # post
           \<and> selectedFormat ''audio'' itagParam fs = Some f
           \<and> hasAudio f \<and> \<not> hasVideo f
           \<and> (\<forall>g\<in>set pre. hasAudio g \<and> \<not> hasVideo g
                  \<longrightarrow> js_lt (audioBitrateOf g) (audioBitrateOf f))
           \<and> (\<forall>g\<in>set post. hasAudio g \<and> \<not> hasVideo g
                  \<longrightarrow> js_le (audioBitrateOf g) (audioBitrateOf f))"
proof -
  let ?cands = "filter isAudioOnly fs"
  have ne: "?cands \<noteq> []"
    using assms(2) by (simp add: filter_empty_conv)
  have nn: "\<forall>f\<in>set ?cands. audioBitrateOf f \<noteq> NaN"
    using assms(3) by simp
  from js_sort_first_max [OF ne nn] obtain pre' f post' where
    split': "?cands = pre' @ f # post'" and
    first: "first_element (preferredAudio fs) = Some f" and
    before': "\<forall>g\<in>set pre'. js_lt (audioBitrateOf g) (audioBitrateOf f)" and
    after': "\<forall>g\<in>set post'. js_le (audioBitrateOf g) (audioBitrateOf f)"
    unfolding preferredAudio_def by blast
  from filter_split [OF split'] obtain pre post where
    split: "fs = pre @ f # post" and
    pre: "filter isAudioOnly pre = pre'" and
    post: "filter isAudioOnly post = post'" and
    f: "isAudioOnly f"
    by blast
  have "\<forall>g\<in>set pre. isAudioOnly g \<longrightarrow> js_lt (audioBitrateOf g) (audioBitrateOf f)"
    using before' pre by auto
  moreover have "\<forall>g\<in>set post. isAudioOnly g \<longrightarrow> js_le (audioBitrateOf g) (audioBitrateOf f)"
    using after' post by auto
  moreover have "selectedFormat ''audio'' itagParam fs = Some f"
    using assms(1) first by (simp add: selectedFormat_def defaultFormat_def)
  ultimately show ?thesis
    using split f unfolding isAudioOnly_def by blast
qed

theorem C2_audio_default_witness:
  "explicitFormat (targetItag None) [a128, a160, a96] = None
   \<and> audioBitrateOf a128 = Fin 128000 \<and> audioBitrateOf a160 = Fin 160000
   \<and> audioBitrateOf a96 = Fin 96000
   \<and> selectedFormat ''audio'' None [a128, a160, a96] = Some a160"
proof -
  let ?fs = "[a128, a160, a96]"
  have h1: "explicitFormat (targetItag None) ?fs = None"
    by (simp add: targetItag_def explicitFormat_def)
  have h2: "\<exists>f\<in>set ?fs. isAudioOnly f"
    by (simp add: isAudioOnly_examples)
  have h3: "\<forall>f\<in>set ?fs. isAudioOnly f \<longrightarrow> audioBitrateOf f \<noteq> NaN"
    by (simp add: audioBitrateOf_examples)
  from C2_audio_default [OF h1 h2 h3]
  obtain pre f post where
    split: "?fs = pre @ f # post" and
    sel: "selectedFormat ''audio'' None ?fs = Some f" and
    before: "\<forall>g\<in>set pre. hasAudio g \<and> \<not> hasVideo g
               \<longrightarrow> js_lt (audioBitrateOf g) (audioBitrateOf f)" and
    after: "\<forall>g\<in>set post. hasAudio g \<and> \<not> hasVideo g
               \<longrightarrow> js_le (audioBitrateOf g) (audioBitrateOf f)"
    by blast
  have ao: "hasAudio a128 \<and> \<not> hasVideo a128" "hasAudio a160 \<and> \<not> hasVideo a160"
    using isAudioOnly_examples by (simp_all add: isAudioOnly_def)
  from split consider
    "pre = [] \<and> f = a128 \<and> post = [a160, a96]"
    | "pre = [a128] \<and> f = a160 \<and> post = [a96]"
    | "pre = [a128, a160] \<and> f = a96 \<and> post = []"
    by (auto simp: Cons_eq_append_conv)
  then have "f = a160"
  proof cases
    case 1
    then show ?thesis
      using after ao by (simp add: audioBitrateOf_examples js_le_def js_strict_eq_def)
  next
    case 2
    then show ?thesis by simp
  next
    case 3
    then show ?thesis
      using before ao by (simp add: audioBitrateOf_examples)
  qed
  then show ?thesis
    using sel h1 by (simp add: audioBitrateOf_examples)
qed

section \<open>Selection by explicit format id\<close>

lemma explicitFormat_truthy:
  assumes "js_truthy t"
  shows "explicitFormat (Some t) fs = find (\<lambda>f. itag f = t) fs"
proof -
  have "t \<noteq> NaN"
    using assms by auto
  then have eq: "(\<lambda>f. js_strict_eq (itag f) t) = (\<lambda>f. itag f = t)"
    by (auto simp: js_strict_eq_def fun_eq_iff)
  show ?thesis
    using assms by (simp add: explicitFormat_def eq)
qed

lemma targetItag_Some:
  "js_truthy (js_Number s) \<Longrightarrow> targetItag (Some s) = Some (js_Number s)"
  by (cases "s = []") (auto simp: targetItag_def js_Number_def trimWhiteSpace_def)

lemma explicitFormat_absent:
  "\<forall>f\<in>set fs. \<not> js_strict_eq (itag f) (js_Number s) \<Longrightarrow>
     explicitFormat (targetItag (Some s)) fs = None"
  by (simp add: explicitFormat_def targetItag_def find_None)

lemma explicitFormat_falsy:
  "\<not> js_truthy (js_Number s) \<Longrightarrow> explicitFormat (targetItag (Some s)) fs = None"
  by (simp add: explicitFormat_def targetItag_def)

text \<open>
  C3, as the code has it. Let the \<^verbatim>\<open>itag\<close> parameter be present and \<open>n\<close> be the number it
  reads as. If \<open>n\<close> is neither \<open>0\<close> nor \<^verbatim>\<open>NaN\<close> and a format of the full list has the id
  \<open>n\<close>, the selected format is the first format of the list with that id, whatever the
  kind. If no format has the id \<open>n\<close>, or \<open>n\<close> is \<open>0\<close> or \<^verbatim>\<open>NaN\<close>, the selection is the
  one of the default policy for the kind.
\<close>

theorem C3_explicit_id:
  "(js_truthy (js_Number s) \<and> (\<exists>f\<in>set fs. itag f = js_Number s)
      \<longrightarrow> (\<exists>pre f post. fs = pre @ f # post
             \<and> selectedFormat type (Some s) fs = Some f
             \<and> itag f = js_Number s
             \<and> (\<forall>g\<in>set pre. itag g \<noteq> js_Number s)))
   \<and> ((\<forall>f\<in>set fs. \<not> js_strict_eq (itag f) (js_Number s))
      \<longrightarrow> selectedFormat type (Some s) fs = defaultFormat type fs)
   \<and> (\<not> js_truthy (js_Number s)
      \<longrightarrow> selectedFormat type (Some s) fs = defaultFormat type fs)"
proof (intro conjI impI)
  assume a: "js_truthy (js_Number s) \<and> (\<exists>f\<in>set fs. itag f = js_Number s)"
  then have e: "explicitFormat (targetItag (Some s)) fs = find (\<lambda>f. itag f = js_Number s) fs"
    by (simp add: targetItag_Some explicitFormat_truthy)
  from a obtain f where "find (\<lambda>f. itag f = js_Number s) fs = Some f"
    by (cases "find (\<lambda>f. itag f = js_Number s) fs") (auto simp: find_None)
  moreover from this have "selectedFormat type (Some s) fs = Some f"
    using e by (simp add: selectedFormat_def)
  ultimately show "\<exists>pre f post. fs = pre @ f # post
             \<and> selectedFormat type (Some s) fs = Some f
             \<and> itag f = js_Number s
             \<and> (\<forall>g\<in>set pre. itag g \<noteq> js_Number s)"
    by (auto simp: find_first)
next
  assume "\<forall>f\<in>set fs. \<not> js_strict_eq (itag f) (js_Number s)"
  then show "selectedFormat type (Some s) fs = defaultFormat type fs"
    by (simp add: selectedFormat_def explicitFormat_absent)
next
  assume "\<not> js_truthy (js_Number s)"
  then show "selectedFormat type (Some s) fs = defaultFormat type fs"
    by (simp add: selectedFormat_def explicitFormat_falsy)
qed

theorem C3_explicit_id_counterexample:
  "js_Number ''0'' = Fin 0 \<and> a0 \<in> set [a0, v720] \<and> itag a0 = Fin 0
   \<and> selectedFormat ''video'' (Some ''0'') [a0, v720] = Some v720 \<and> v720 \<noteq> a0"
proof -
  have "selectedFormat ''video'' (Some ''0'') [a0, v720] = defaultFormat ''video'' [a0, v720]"
    by (simp add: selectedFormat_def targetItag_def explicitFormat_def number_0)
  also have "\<dots> = Some v720"
    by (simp add: defaultFormat_def preferredVideo_def isCombinedMp4_examples
          isCombinedMp4_audio_examples)
  finally have "selectedFormat ''video'' (Some ''0'') [a0, v720] = Some v720" .
  moreover have "v720 \<noteq> a0"
    by (simp add: v720_def a0_def a128_def)
  ultimately show ?thesis
    by (simp add: number_0 itag_examples)
qed

theorem C3_explicit_id_witness:
  "js_truthy (js_Number ''37'') \<and> itag v1080 = js_Number ''37''
   \<and> selectedFormat ''audio'' (Some ''37'') [v720, v1080, v480] = Some v1080
   \<and> selectedFormat ''audio'' (Some ''999'') [v720, v1080, v480]
       = defaultFormat ''audio'' [v720, v1080, v480]
   \<and> \<not> js_truthy (js_Number ''0'')
   \<and> selectedFormat ''audio'' (Some ''0'') [v720, v1080, v480]
       = defaultFormat ''audio'' [v720, v1080, v480]"
proof -
  let ?fs = "[v720, v1080, v480]"
  have t: "js_truthy (js_Number ''37'') \<and> (\<exists>f\<in>set ?fs. itag f = js_Number ''37'')"
    by (simp add: number_37 itag_examples)
  with C3_explicit_id [of "''37''" ?fs "''audio''"] obtain pre f post where
    split: "?fs = pre @ f # post" and
    sel: "selectedFormat ''audio'' (Some ''37'') ?fs = Some f" and
    id: "itag f = js_Number ''37''"
    by blast
  from split consider "f = v720" | "f = v1080" | "f = v480"
    by (auto simp: Cons_eq_append_conv)
  then have "f = v1080"
    using id by cases (simp_all add: number_37 itag_examples)
  then have 1: "selectedFormat ''audio'' (Some ''37'') ?fs = Some v1080"
    using sel by simp
  have "\<forall>f\<in>set ?fs. \<not> js_strict_eq (itag f) (js_Number ''999'')"
    by (simp add: number_999 itag_examples js_strict_eq_def)
  with C3_explicit_id [of "''999''" ?fs "''audio''"]
  have 2: "selectedFormat ''audio'' (Some ''999'') ?fs = defaultFormat ''audio'' ?fs"
    by blast
  have z: "\<not> js_truthy (js_Number ''0'')"
    by (simp add: number_0)
  with C3_explicit_id [of "''0''" ?fs "''audio''"]
  have 3: "selectedFormat ''audio'' (Some ''0'') ?fs = defaultFormat ''audio'' ?fs"
    by blast
  show ?thesis
    using t 1 2 3 z by (simp add: number_37 itag_examples)
qed

section \<open>The audio fallback\<close>

text \<open>
  C4. The fallback of the audio branch searches with the condition of the filter it
  falls back from, an audio track and no video track, so it finds nothing when the filter
  found nothing: for a list that holds one format with both tracks, the audio selection
  gives no format and the endpoint answers 404, although the format has an audio track.
\<close>

theorem C4_audio_fallback_same_filter:
  "hasAudio v720 \<and> selectedFormat ''audio'' None [v720] = None
   \<and> fst (GET (exampleResolver [v720]) id (Some exampleUrl) (Some ''audio'') None)
       = jsonError 404 ''No matching format available for download.''"
proof -
  have s: "selectedFormat ''audio'' None [v720] = None"
    by (simp add: selectedFormat_def targetItag_def explicitFormat_def defaultFormat_def
          preferredAudio_def isAudioOnly_examples)
  have "hasAudio v720"
    by (simp add: v720_def)
  moreover have "fst (GET (exampleResolver [v720]) id (Some exampleUrl) (Some ''audio'') None)
       = jsonError 404 ''No matching format available for download.''"
    using s by (simp add: GET_def exampleResolver_valid exampleResolver_info)
  ultimately show ?thesis
    using s by simp
qed

section \<open>Headers of the streamed response\<close>

lemma js_split_semicolon_nonempty: "js_split_semicolon s \<noteq> []"
  by (induction s) (auto split: list.splits)

lemma hd_js_split_semicolon: "hd (js_split_semicolon s) = takeWhile (\<lambda>c. c \<noteq> CHR '';'') s"
proof (induction s)
  case Nil
  then show ?case by simp
next
  case (Cons c cs)
  then show ?case
    using js_split_semicolon_nonempty [of cs] by (cases "js_split_semicolon cs") auto
qed

lemma stripped_parameters:
  "CHR '';'' \<notin> set (hd (js_split_semicolon m))
   \<and> (m = hd (js_split_semicolon m)
        \<or> (\<exists>ps. m = hd (js_split_semicolon m) @ CHR '';'' # ps))"
  unfolding hd_js_split_semicolon by (induction m) auto

text \<open>A value without white space at its ends is stored as it is.\<close>

lemma dropWhile_hd_id: "v \<noteq> [] \<Longrightarrow> \<not> P (hd v) \<Longrightarrow> dropWhile P v = v"
  by (cases v) simp_all

lemma headerValueNormalize_id:
  assumes "v \<noteq> []" and "\<not> isHttpWhitespace (hd v)" and "\<not> isHttpWhitespace (last v)"
  shows "headerValueNormalize v = v"
proof -
  have 1: "dropWhile isHttpWhitespace v = v"
    using assms by (simp add: dropWhile_hd_id)
  have 2: "dropWhile isHttpWhitespace (rev v) = rev v"
    using assms by (simp add: dropWhile_hd_id hd_rev)
  show ?thesis
    by (simp add: headerValueNormalize_def 1 2)
qed

lemma map_of_normalized:
  "map_of (map (\<lambda>(n, v). (n, headerValueNormalize v)) hs) k
     = map_option headerValueNormalize (map_of hs k)"
  by (simp add: map_of_map)

lemma names_normalized:
  "fst ` set (map (\<lambda>(n, v). (n, headerValueNormalize v)) hs) = fst ` set hs"
  by force

text \<open>What the constructor of the response checks for the three headers of the handler.\<close>

lemma headerValuesAccepted_downloadHeaders:
  "headerValuesAccepted (downloadHeaders f fileName) =
     (isValidHeaderValue (headerValueNormalize (contentType f))
      \<and> isValidHeaderValue
          (headerValueNormalize (''attachment; filename='' @ [CHR 0x22] @ fileName @ [CHR 0x22]))
      \<and> (\<forall>l. contentLength f = Some l \<longrightarrow> isValidHeaderValue (headerValueNormalize l)))"
proof (cases "contentLength f")
  case None
  then show ?thesis
    by (simp add: headerValuesAccepted_def downloadHeaders_def)
next
  case (Some l)
  have "isValidHeaderValue (headerValueNormalize [])"
    by (simp add: isValidHeaderValue_def headerValueNormalize_def)
  with Some show ?thesis
    by (auto simp: headerValuesAccepted_def downloadHeaders_def)
qed

text \<open>
  C9. When the URL is accepted, the Resolver has answered, a format is selected and the
  constructor of the response accepts the values of the three headers (none of them,
  trimmed of the white space around it, holds a NUL, a line feed or a carriage return),
  the response has status 200; its \<^verbatim>\<open>Content-Length\<close> header is the declared byte length
  of the format, trimmed, when the format declares one (a non-empty \<^verbatim>\<open>contentLength\<close>),
  so the declared length itself when it has no white space at its ends, and there is no
  \<^verbatim>\<open>Content-Length\<close> header at all when it declares none. The \<^verbatim>\<open>Content-Type\<close> header
  is the MIME type of the format cut before its first semicolon, trimmed: the cut value
  holds no semicolon, and the MIME type is this value, or this value followed by a
  semicolon and the parameters. A format without MIME type is served as
  \<^verbatim>\<open>application/octet-stream\<close>.
\<close>

theorem C9_download_headers:
  assumes "validateURL ytdl u" and "getInfo ytdl u = Some info"
    and "selectedFormat (case typeParam of None \<Rightarrow> ''video'' | Some t \<Rightarrow> t) itagParam
           (formats info) = Some f"
    and "headerValuesAccepted (downloadHeaders f
           (toSafeFileName (title (videoDetails info)) @ ''.'' @ inferExtension (mimeType f)))"
  shows "status (fst (GET ytdl toSafeFileName (Some u) typeParam itagParam)) = 200
    \<and> map_of (headers (fst (GET ytdl toSafeFileName (Some u) typeParam itagParam)))
          ''Content-Length''
        = (case contentLength f of
             None \<Rightarrow> None
           | Some l \<Rightarrow> if l = [] then None else Some (headerValueNormalize l))
    \<and> (\<forall>l. contentLength f = Some l \<and> l \<noteq> []
             \<and> \<not> isHttpWhitespace (hd l) \<and> \<not> isHttpWhitespace (last l)
          \<longrightarrow> map_of (headers (fst (GET ytdl toSafeFileName (Some u) typeParam itagParam)))
                ''Content-Length'' = Some l)
    \<and> ((contentLength f = None \<or> contentLength f = Some [])
        \<longrightarrow> ''Content-Length''
              \<notin> fst ` set (headers (fst (GET ytdl toSafeFileName (Some u) typeParam itagParam))))
    \<and> (\<forall>m. mimeType f = Some m \<longrightarrow>
          (\<exists>ct. map_of (headers (fst (GET ytdl toSafeFileName (Some u) typeParam itagParam)))
                  ''Content-Type'' = Some (headerValueNormalize ct)
                \<and> CHR '';'' \<notin> set ct
                \<and> (m = ct \<or> (\<exists>ps. m = ct @ CHR '';'' # ps))))
    \<and> (mimeType f = None \<longrightarrow>
          map_of (headers (fst (GET ytdl toSafeFileName (Some u) typeParam itagParam)))
            ''Content-Type'' = Some ''application/octet-stream'')"
proof -
  let ?r = "fst (GET ytdl toSafeFileName (Some u) typeParam itagParam)"
  obtain name where h: "headers ?r = map (\<lambda>(n, v). (n, headerValueNormalize v)) (downloadHeaders f name)"
    and s: "status ?r = 200"
    using GET_selected [where toSafeFileName = toSafeFileName, OF assms] by simp
  have 1: "map_of (headers ?r) ''Content-Length''
        = (case contentLength f of
             None \<Rightarrow> None
           | Some l \<Rightarrow> if l = [] then None else Some (headerValueNormalize l))"
    unfolding h map_of_normalized by (simp add: downloadHeaders_def split: option.splits)
  have 2: "\<forall>l. contentLength f = Some l \<and> l \<noteq> []
             \<and> \<not> isHttpWhitespace (hd l) \<and> \<not> isHttpWhitespace (last l)
          \<longrightarrow> map_of (headers ?r) ''Content-Length'' = Some l"
    unfolding 1 by (simp add: headerValueNormalize_id)
  have 3: "(contentLength f = None \<or> contentLength f = Some [])
        \<longrightarrow> ''Content-Length'' \<notin> fst ` set (headers ?r)"
    unfolding h names_normalized by (auto simp: downloadHeaders_def)
  have 4: "map_of (headers ?r) ''Content-Type'' = Some (headerValueNormalize (contentType f))"
    unfolding h map_of_normalized by (simp add: downloadHeaders_def)
  have 5: "\<forall>m. mimeType f = Some m \<longrightarrow>
          (\<exists>ct. map_of (headers ?r) ''Content-Type'' = Some (headerValueNormalize ct)
                \<and> CHR '';'' \<notin> set ct
                \<and> (m = ct \<or> (\<exists>ps. m = ct @ CHR '';'' # ps)))"
  proof (intro allI impI)
    fix m
    assume m: "mimeType f = Some m"
    then have c: "contentType f = hd (js_split_semicolon m)"
      by (simp add: contentType_def)
    show "\<exists>ct. map_of (headers ?r) ''Content-Type'' = Some (headerValueNormalize ct)
                \<and> CHR '';'' \<notin> set ct
                \<and> (m = ct \<or> (\<exists>ps. m = ct @ CHR '';'' # ps))"
      unfolding 4 c using stripped_parameters [of m] by blast
  qed
  have n: "headerValueNormalize ''application/octet-stream'' = ''application/octet-stream''"
    by (rule headerValueNormalize_id) (simp_all add: isHttpWhitespace_def)
  have 6: "mimeType f = None \<longrightarrow>
          map_of (headers ?r) ''Content-Type'' = Some ''application/octet-stream''"
    unfolding 4 using n by (simp add: contentType_def)
  show ?thesis
    using s 1 2 3 5 6 by blast
qed

text \<open>
  Without the hypothesis on the header values the statement fails: a format whose MIME
  type holds a line feed is selected and declares its length, the constructor of the
  response throws on the \<^verbatim>\<open>Content-Type\<close> value, and the endpoint answers 500 with the
  error message, no header at all, after the stream has been opened.
\<close>

theorem C9_download_headers_counterexample:
  "validateURL (exampleResolver [vLf]) exampleUrl
   \<and> selectedFormat ''video'' None [vLf] = Some vLf
   \<and> contentLength vLf = Some ''52428800''
   \<and> GET (exampleResolver [vLf]) id (Some exampleUrl) None None
       = (jsonError 500 ''Unable to process download. Please try again later.'',
          [GetInfo exampleUrl, OpenStream exampleUrl (Fin 22) videoandaudio])
   \<and> status (fst (GET (exampleResolver [vLf]) id (Some exampleUrl) None None)) \<noteq> 200
   \<and> map_of (headers (fst (GET (exampleResolver [vLf]) id (Some exampleUrl) None None)))
        ''Content-Length'' = None"
proof -
  let ?info = "\<lparr>formats = [vLf], videoDetails = exampleDetails\<rparr>"
  have c: "isCombinedMp4 vLf"
    by (simp add: isCombinedMp4_def vLf_def v720_def)
  have sel: "selectedFormat ''video'' None [vLf] = Some vLf"
    by (simp add: selectedFormat_def targetItag_def explicitFormat_def defaultFormat_def
          preferredVideo_def c)
  have h3: "selectedFormat (case None of None \<Rightarrow> ''video'' | Some t \<Rightarrow> t) None
              (formats ?info) = Some vLf"
    using sel by simp
  have ct: "contentType vLf = ''video/mp4'' @ [CHR 0x0A] @ ''codecs=avc1.64001F''"
    by (simp add: contentType_def vLf_def)
  have "\<not> isValidHeaderValue (headerValueNormalize (contentType vLf))"
    unfolding ct by (simp add: headerValueNormalize_def isHttpWhitespace_def isValidHeaderValue_def)
  then have h4: "\<not> headerValuesAccepted (downloadHeaders vLf
           (id (title (videoDetails ?info)) @ ''.'' @ inferExtension (mimeType vLf)))"
    by (simp add: headerValuesAccepted_downloadHeaders)
  have l: "contentLength vLf = Some ''52428800''" and i: "itag vLf = Fin 22"
    by (simp_all add: vLf_def v720_def)
  have g: "GET (exampleResolver [vLf]) id (Some exampleUrl) None None
       = (jsonError 500 ''Unable to process download. Please try again later.'',
          [GetInfo exampleUrl, OpenStream exampleUrl (Fin 22) videoandaudio])"
    unfolding GET_rejected_headers [where toSafeFileName = id, OF exampleResolver_valid exampleResolver_info h3 h4]
    by (simp add: i)
  show ?thesis
    unfolding g using sel l exampleResolver_valid by (simp add: jsonError_def)
qed

theorem C9_download_headers_witness:
  "validateURL (exampleResolver [a128, a96]) exampleUrl
   \<and> selectedFormat ''audio'' None [a128, a96] = Some a128
   \<and> headerValuesAccepted (downloadHeaders a128 ''Demo clip.mp4'')
   \<and> status (fst (GET (exampleResolver [a128, a96]) id (Some exampleUrl)
                 (Some ''audio'') None)) = 200
   \<and> map_of (headers (fst (GET (exampleResolver [a128, a96]) id (Some exampleUrl)
                 (Some ''audio'') None))) ''Content-Length'' = Some ''3400000''
   \<and> map_of (headers (fst (GET (exampleResolver [a128, a96]) id (Some exampleUrl)
                 (Some ''audio'') None))) ''Content-Type'' = Some ''audio/mp4''
   \<and> selectedFormat ''audio'' (Some ''139'') [a128, a96] = Some a96
   \<and> headerValuesAccepted (downloadHeaders a96 ''Demo clip.mp4'')
   \<and> ''Content-Length'' \<notin> fst ` set (headers (fst (GET (exampleResolver [a128, a96]) id
                 (Some exampleUrl) (Some ''audio'') (Some ''139''))))"
proof -
  let ?R = "exampleResolver [a128, a96]"
  let ?info = "\<lparr>formats = [a128, a96], videoDetails = exampleDetails\<rparr>"
  have h1: "validateURL ?R exampleUrl"
    by (rule exampleResolver_valid)
  have h2: "getInfo ?R exampleUrl = Some ?info"
    by (rule exampleResolver_info)
  have h3: "selectedFormat (case Some ''audio'' of None \<Rightarrow> ''video'' | Some t \<Rightarrow> t) None
              (formats ?info) = Some a128"
    by (simp add: selected_audio_default)
  have h4: "selectedFormat (case Some ''audio'' of None \<Rightarrow> ''video'' | Some t \<Rightarrow> t) (Some ''139'')
              (formats ?info) = Some a96"
    by (simp add: selected_audio_139)
  have l1: "contentLength a128 = Some ''3400000''"
    and m1: "mimeType a128 = Some (''audio/mp4; codecs='' @ [CHR 0x22] @ ''mp4a.40.2'' @ [CHR 0x22])"
    by (simp_all add: a128_def)
  have l2: "contentLength a96 = None" and m2: "mimeType a96 = mimeType a128"
    by (simp_all add: a96_def)
  have c1: "contentType a128 = ''audio/mp4''" and c2: "contentType a96 = ''audio/mp4''"
    by (simp_all add: contentType_def m1 m2)
  have n1: "id (title (videoDetails ?info)) @ ''.'' @ inferExtension (mimeType a128)
              = ''Demo clip.mp4''"
    by (simp add: exampleDetails_def inferExtension_def m1)
  have n2: "id (title (videoDetails ?info)) @ ''.'' @ inferExtension (mimeType a96)
              = ''Demo clip.mp4''"
    unfolding m2 by (rule n1)
  have a1: "headerValuesAccepted (downloadHeaders a128 ''Demo clip.mp4'')"
    by (simp add: headerValuesAccepted_downloadHeaders c1 l1 headerValueNormalize_def
          isHttpWhitespace_def isValidHeaderValue_def)
  have a2: "headerValuesAccepted (downloadHeaders a96 ''Demo clip.mp4'')"
    by (simp add: headerValuesAccepted_downloadHeaders c2 l2 headerValueNormalize_def
          isHttpWhitespace_def isValidHeaderValue_def)
  have k1: "headerValuesAccepted (downloadHeaders a128
              (id (title (videoDetails ?info)) @ ''.'' @ inferExtension (mimeType a128)))"
    unfolding n1 by (rule a1)
  have k2: "headerValuesAccepted (downloadHeaders a96
              (id (title (videoDetails ?info)) @ ''.'' @ inferExtension (mimeType a96)))"
    unfolding n2 by (rule a2)
  have w: "''3400000'' \<noteq> []" "\<not> isHttpWhitespace (hd ''3400000'')"
    "\<not> isHttpWhitespace (last ''3400000'')"
    by (simp_all add: isHttpWhitespace_def)
  have 0: "status (fst (GET ?R id (Some exampleUrl) (Some ''audio'') None)) = 200"
    using C9_download_headers [where toSafeFileName = id, OF h1 h2 h3 k1] by blast
  have 1: "map_of (headers (fst (GET ?R id (Some exampleUrl) (Some ''audio'') None)))
             ''Content-Length'' = Some ''3400000''"
    using C9_download_headers [where toSafeFileName = id, OF h1 h2 h3 k1] l1 w by blast
  have 2: "''Content-Length'' \<notin> fst ` set (headers (fst (GET ?R id (Some exampleUrl)
             (Some ''audio'') (Some ''139''))))"
    using C9_download_headers [where toSafeFileName = id, OF h1 h2 h4 k2] l2 by blast
  have 3: "map_of (headers (fst (GET ?R id (Some exampleUrl) (Some ''audio'') None)))
             ''Content-Type'' = Some ''audio/mp4''"
    unfolding GET_selected [where toSafeFileName = id, OF h1 h2 h3 k1]
    by (simp add: map_of_normalized downloadHeaders_def c1 headerValueNormalize_def
          isHttpWhitespace_def)
  show ?thesis
    using h1 a1 a2 0 1 2 3 selected_audio_default selected_audio_139 by blast
qed

section \<open>The kind of a request\<close>



section \<open>Progress of the client's download\<close>

lemma round_double_not_NaN: "round_double x \<noteq> NaN"
  by (simp add: round_double_def Let_def)

lemma js_div_not_NaN: "js_truthy d \<Longrightarrow> js_div (Fin r) d \<noteq> NaN"
  by (cases d) (simp_all add: round_double_not_NaN)

lemma js_mul_100_not_NaN: "a \<noteq> NaN \<Longrightarrow> js_mul a (Fin 100) \<noteq> NaN"
  by (cases a) (simp_all add: round_double_not_NaN)

lemma Math_round_not_NaN: "a \<noteq> NaN \<Longrightarrow> Math_round a \<noteq> NaN"
  by (cases a) simp_all

lemma Math_min_99_not_100: "Math_min (Fin 99) a \<noteq> Fin 100"
  by (cases a) (auto simp: Math_min_def)

lemma Math_min_99_le: "a \<noteq> NaN \<Longrightarrow> js_le (Math_min (Fin 99) a) (Fin 99)"
  by (cases a) (auto simp: Math_min_def js_le_def js_strict_eq_def)

lemma progressAfter_not_100: "progressAfter r d \<noteq> Fin 100"
  by (simp add: progressAfter_def Math_min_99_not_100)

lemma progressAfter_le_99: "js_truthy d \<Longrightarrow> js_le (progressAfter r d) (Fin 99)"
  by (simp add: progressAfter_def Math_min_99_le Math_round_not_NaN js_mul_100_not_NaN
        js_div_not_NaN)

lemma readLoop_not_100: "Fin 100 \<notin> set (readLoop d r reads)"
proof (induction d r reads rule: readLoop.induct)
  case (1 d r)
  then show ?case by simp
next
  case (2 d r rs)
  then show ?case by simp
next
  case (3 d r v rs)
  then show ?case
    using progressAfter_not_100 [of "r + length v" d] by auto
qed

lemma readLoop_le_99: "js_truthy d \<Longrightarrow> \<forall>p\<in>set (readLoop d r reads). js_le p (Fin 99)"
  by (induction d r reads rule: readLoop.induct) (simp_all add: progressAfter_le_99)

lemma map_upt_Suc_shift: "map f [Suc a..<Suc b] = map (\<lambda>k. f (Suc k)) [a..<b]"
  by (simp add: map_Suc_upt [symmetric] del: upt_Suc)  

lemma receivedAfter_None: "receivedAfter k (None # rs) = receivedAfter k rs"
  by (simp add: receivedAfter_def)

lemma receivedAfter_Some:
  "receivedAfter (Suc k) (Some v # rs) = length v + receivedAfter k rs"
  by (simp add: receivedAfter_def)

lemma readLoop_prefix_sums:
  assumes "js_truthy d"
  shows "readLoop d r reads =
           map (\<lambda>k. progressAfter (r + receivedAfter k reads) d)
               [Suc 0..<Suc (length (deliveredChunks reads))]"
  using assms
proof (induction d r reads rule: readLoop.induct)
  case (1 d r)
  then show ?case by simp
next
  case (2 d r rs)
  then show ?case by (simp add: receivedAfter_None del: upt_Suc)
next
  case (3 d r v rs)
  let ?n = "length (deliveredChunks rs)"
  let ?g = "\<lambda>k. progressAfter (r + receivedAfter k (Some v # rs)) d"
  have ih: "readLoop d (r + length v) rs =
          map (\<lambda>k. progressAfter (r + length v + receivedAfter k rs) d) [Suc 0..<Suc ?n]"
    using 3 by simp
  have shift: "map (\<lambda>k. progressAfter (r + length v + receivedAfter k rs) d) [Suc 0..<Suc ?n]
                 = map (\<lambda>k. ?g (Suc k)) [Suc 0..<Suc ?n]"
    by (simp add: receivedAfter_Some add.assoc del: upt_Suc)
  have tail: "map (\<lambda>k. ?g (Suc k)) [Suc 0..<Suc ?n] = map ?g [Suc (Suc 0)..<Suc (Suc ?n)]"
    by (rule map_upt_Suc_shift [symmetric])
  have head: "progressAfter (r + length v) d = ?g (Suc 0)"
    by (simp add: receivedAfter_Some receivedAfter_def)
  have range: "[Suc 0..<Suc (Suc ?n)] = Suc 0 # [Suc (Suc 0)..<Suc (Suc ?n)]"
    by (simp add: upt_conv_Cons del: upt_Suc)
  have "readLoop d r (Some v # rs) =
          progressAfter (r + length v) d # readLoop d (r + length v) rs"
    using "3.prems" by simp
  also have "\<dots> = ?g (Suc 0) # map ?g [Suc (Suc 0)..<Suc (Suc ?n)]"
    unfolding ih shift tail head ..
  also have "\<dots> = map ?g [Suc 0..<Suc (Suc ?n)]"
    unfolding range by simp
  finally show ?case by simp
qed

lemma number_3: "js_Number ''3'' = Fin 3"
  by code_simp
lemma number_200: "js_Number ''200'' = Fin 200"
  by code_simp

lemma scaled_2_of_3: "Math_round (js_mul (js_div (Fin 2) (Fin 3)) (Fin 100)) = Fin 67"
  by code_simp

lemma scaled_29_of_200: "Math_round (js_mul (js_div (Fin 29) (Fin 200)) (Fin 100)) = Fin 14"
  by code_simp

lemma scaled_200_of_200: "Math_round (js_mul (js_div (Fin 200) (Fin 200)) (Fin 100)) = Fin 100"
  by code_simp

lemma progressAfter_unfold:
  "progressAfter r (Fin t) =
     Math_min (Fin 99) (Math_round (js_mul (js_div (Fin (of_nat r)) (Fin t)) (Fin 100)))"
  by (simp only: progressAfter_def)

lemma progress_2_of_3: "progressAfter 2 (Fin 3) = Fin 67"
  unfolding progressAfter_unfold of_nat_numeral scaled_2_of_3 by (simp add: Math_min_def)

lemma progress_29_of_200: "progressAfter 29 (Fin 200) = Fin 14"
  unfolding progressAfter_unfold of_nat_numeral scaled_29_of_200 by (simp add: Math_min_def)

lemma progress_200_of_200: "progressAfter 200 (Fin 200) = Fin 99"
  unfolding progressAfter_unfold of_nat_numeral scaled_200_of_200 by (simp add: Math_min_def)

lemma spec_progress_2_of_3: "spec_progress 2 3 = 66"
  by code_simp

text \<open>
  C6, as the code has it. When the response declares a total length that reads as a
  number other than \<open>0\<close> and \<^verbatim>\<open>NaN\<close>, the progress values set during a download that is
  read to its end are: \<open>0\<close>; after the \<open>k\<close>-th chunk the value
  \<^verbatim>\<open>Math.min(99, Math.round(received / total * 100))\<close>, where \<open>received\<close> is the number
  of bytes of the first \<open>k\<close> chunks and the rounding is to the nearest integer, not
  downwards; and at last \<open>100\<close>. Every value before the last one differs from \<open>100\<close> and
  is at most \<open>99\<close>, the last one is \<open>100\<close>, and a download whose reading fails or has
  not reached the end of the stream has not set \<open>100\<close>.
\<close>

theorem C6_progress:
  assumes "js_truthy (js_Number (case h of None \<Rightarrow> ''0'' | Some l \<Rightarrow> l))"
  shows "handleDownload (Body h reads Exhausted) =
           Fin 0 #
           map (\<lambda>k. Math_min (Fin 99) (Math_round (js_mul
                       (js_div (Fin (of_nat (receivedAfter k reads)))
                               (js_Number (case h of None \<Rightarrow> ''0'' | Some l \<Rightarrow> l)))
                       (Fin 100))))
               [1..<Suc (length (deliveredChunks reads))]
           @ [Fin 100]
     \<and> (\<forall>p\<in>set (butlast (handleDownload (Body h reads Exhausted))).
           p \<noteq> Fin 100 \<and> js_le p (Fin 99))
     \<and> last (handleDownload (Body h reads Exhausted)) = Fin 100
     \<and> Fin 100 \<notin> set (handleDownload (Body h reads ReadFailed))
     \<and> Fin 100 \<notin> set (handleDownload (Body h reads Pending))"
proof -
  let ?d = "js_Number (case h of None \<Rightarrow> ''0'' | Some l \<Rightarrow> l)"
  have run: "handleDownload (Body h reads Exhausted) = Fin 0 # readLoop ?d 0 reads @ [Fin 100]"
    by (simp add: handleDownload_def)
  have 1: "readLoop ?d 0 reads =
             map (\<lambda>k. Math_min (Fin 99) (Math_round (js_mul
                       (js_div (Fin (of_nat (receivedAfter k reads))) ?d) (Fin 100))))
               [1..<Suc (length (deliveredChunks reads))]"
    using readLoop_prefix_sums [OF assms, of 0 reads] by (simp add: progressAfter_def del: upt_Suc)
  have bl: "butlast (handleDownload (Body h reads Exhausted)) = Fin 0 # readLoop ?d 0 reads"
    unfolding run by (simp add: butlast_append)
  have 2: "\<forall>p\<in>set (butlast (handleDownload (Body h reads Exhausted))).
             p \<noteq> Fin 100 \<and> js_le p (Fin 99)"
    unfolding bl using readLoop_not_100 [of ?d 0 reads] readLoop_le_99 [OF assms, of 0 reads]
    by (auto simp: js_le_def)
  have 3: "last (handleDownload (Body h reads Exhausted)) = Fin 100"
    unfolding run by simp
  have 4: "Fin 100 \<notin> set (handleDownload (Body h reads ReadFailed))"
    using readLoop_not_100 [of ?d 0 reads] by (simp add: handleDownload_def)
  have 5: "Fin 100 \<notin> set (handleDownload (Body h reads Pending))"
    using readLoop_not_100 [of ?d 0 reads] by (simp add: handleDownload_def)
  show ?thesis
    unfolding run 1 [symmetric] using 2 3 4 5 unfolding run by blast
qed

theorem C6_progress_counterexample:
  "handleDownload (Body (Some ''3'') [Some [0, 0]] Exhausted) = [Fin 0, Fin 67, Fin 100]
   \<and> spec_progress 2 3 = 66"
proof -
  have "readLoop (Fin 3) 0 [Some [0, 0]] = [progressAfter 2 (Fin 3)]"
    by (simp add: numeral_2_eq_2)
  then show ?thesis
    by (simp add: handleDownload_def number_3 progress_2_of_3 spec_progress_2_of_3)
qed

theorem C6_progress_witness:
  "js_truthy (js_Number ''200'')
   \<and> handleDownload (Body (Some ''200'') [Some (replicate 29 0), None, Some (replicate 171 0)]
        Exhausted) = [Fin 0, Fin 14, Fin 99, Fin 100]"
proof -
  let ?reads = "[Some (replicate 29 0), None, Some (replicate 171 (0 :: 8 word))]"
  have h: "js_truthy (js_Number (case Some ''200'' of None \<Rightarrow> ''0'' | Some l \<Rightarrow> l))"
    by (simp add: number_200)
  have d: "deliveredChunks ?reads = [replicate 29 0, replicate 171 0]"
    by simp
  have r1: "receivedAfter 1 ?reads = 29" and r2: "receivedAfter 2 ?reads = 200"
    by (simp_all add: receivedAfter_def numeral_2_eq_2)
  have idx: "[1..<Suc (length (deliveredChunks ?reads))] = [1, 2]"
    unfolding d by (simp add: upt_rec numeral_2_eq_2)
  have p1: "Math_min (Fin 99) (Math_round (js_mul (js_div (Fin (of_nat (receivedAfter 1 ?reads)))
              (js_Number ''200'')) (Fin 100))) = Fin 14"
    unfolding r1 number_200 of_nat_numeral scaled_29_of_200 by (simp add: Math_min_def)
  have p2: "Math_min (Fin 99) (Math_round (js_mul (js_div (Fin (of_nat (receivedAfter 2 ?reads)))
              (js_Number ''200'')) (Fin 100))) = Fin 99"
    unfolding r2 number_200 of_nat_numeral scaled_200_of_200 by (simp add: Math_min_def)
  have "handleDownload (Body (Some ''200'') ?reads Exhausted) = [Fin 0, Fin 14, Fin 99, Fin 100]"
    using C6_progress [OF h, of ?reads] unfolding idx
    by (simp only: list.map p1 p2 option.case append.simps)
  then show ?thesis
    using h by simp
qed

section \<open>The lists of the metadata endpoint\<close>

text \<open>
  What holds of the two lists: every entry of the first comes from a format with both
  tracks whose MIME type contains \<^verbatim>\<open>mp4\<close>, every entry of the second from a format with
  an audio track, no video track, and a MIME type that contains \<^verbatim>\<open>audio\<close>.
\<close>

lemma mp4Formats_sources:
  "e \<in> set (mp4Formats fs) \<Longrightarrow>
     \<exists>f\<in>set fs. e = toMp4Entry f \<and> hasVideo f \<and> hasAudio f \<and> mimeTypeIncludes ''mp4'' f"
  by (auto simp: mp4Formats_def mp4Sources_def filterFormats_def)

lemma audioFormats_sources:
  "e \<in> set (audioFormats fs) \<Longrightarrow>
     \<exists>f\<in>set fs. e = toAudioEntry f \<and> hasAudio f \<and> \<not> hasVideo f \<and> mimeTypeIncludes ''audio'' f"
  by (auto simp: audioFormats_def audioSources_def filterFormats_def)

lemma v3gp_includes_mp4: "mimeTypeIncludes ''mp4'' v3gp"
  by (simp add: mimeTypeIncludes_def v3gp_def)

text \<open>
  C8. The first list is filtered by the text of the MIME type, not by the container: a
  muxed 3GP format, whose MIME type names its MPEG-4 codecs, passes the test for
  \<^verbatim>\<open>mp4\<close> and is listed among the MP4 formats with its container \<^verbatim>\<open>3gp\<close>.
\<close>

theorem C8_mp4_list_admits_3gp:
  "hasVideo v3gp \<and> hasAudio v3gp \<and> container v3gp = ''3gp''
   \<and> mp4Formats [v3gp, v720]
       = [\<lparr>mp4_itag = Fin 17, mp4_qualityLabel = Some ''144p'', mp4_container = ''3gp'',
            mp4_bitrate = Some (Fin 80000)\<rparr>,
          \<lparr>mp4_itag = Fin 22, mp4_qualityLabel = Some ''720p60'', mp4_container = ''mp4'',
            mp4_bitrate = Some (Fin 2500000)\<rparr>]
   \<and> body (fst (POST (exampleResolver [v3gp, v720]) (JsonValue (UrlString exampleUrl))))
       = Json \<lparr>payload_title = ''Demo clip'', payload_author = ''Demo channel'',
               payload_thumbnailUrl = Some ''https://i.example/maxres.jpg'',
               payload_lengthSeconds = Fin 212,
               payload_mp4Formats = mp4Formats [v3gp, v720],
               payload_audioFormats = []\<rparr>"
proof -
  have m: "mp4Formats [v3gp, v720]
       = [\<lparr>mp4_itag = Fin 17, mp4_qualityLabel = Some ''144p'', mp4_container = ''3gp'',
            mp4_bitrate = Some (Fin 80000)\<rparr>,
          \<lparr>mp4_itag = Fin 22, mp4_qualityLabel = Some ''720p60'', mp4_container = ''mp4'',
            mp4_bitrate = Some (Fin 2500000)\<rparr>]"
    by (simp add: mp4Formats_def mp4Sources_def filterFormats_def mimeTypeIncludes_def
          toMp4Entry_def v3gp_def v720_def)
  have a: "audioFormats [v3gp, v720] = []"
    by (simp add: audioFormats_def audioSources_def filterFormats_def v3gp_def v720_def)
  have n: "js_Number ''212'' = Fin 212"
    by code_simp
  have "body (fst (POST (exampleResolver [v3gp, v720]) (JsonValue (UrlString exampleUrl))))
       = Json \<lparr>payload_title = ''Demo clip'', payload_author = ''Demo channel'',
               payload_thumbnailUrl = Some ''https://i.example/maxres.jpg'',
               payload_lengthSeconds = Fin 212,
               payload_mp4Formats = mp4Formats [v3gp, v720],
               payload_audioFormats = []\<rparr>"
    by (simp add: POST_def exampleResolver_valid exampleResolver_info a n exampleDetails_def)
  then show ?thesis
    using m by (simp add: v3gp_def)
qed

end
